theory Spec2Isabelle
  imports Complex_Main "HOL-Library.Product_Lexorder"
begin

section \<open>Python strings\<close>

text \<open>
  A Python \<open>str\<close> is a sequence of Unicode code points and \<open>len\<close> counts code points,
  so a string is modelled as a list of code points (natural numbers). \<open>py\<close> turns an
  ASCII literal into such a list.
\<close>

type_synonym codepoint = nat
type_synonym pystr = "codepoint list"

definition py :: "string \<Rightarrow> pystr" where
  "py s = map of_char s"

text \<open>
  The characters that \<open>str.strip\<close>, \<open>str.split\<close> and the pattern \<open>\s\<close> of \<open>re\<close> (on
  \<open>str\<close> patterns) treat as whitespace: the code points for which \<open>str.isspace\<close> holds.
\<close>

definition is_space :: "codepoint \<Rightarrow> bool" where
  "is_space c \<longleftrightarrow>
     (9 \<le> c \<and> c \<le> 13) \<or> (28 \<le> c \<and> c \<le> 32) \<or> c = 133 \<or> c = 160 \<or> c = 5760 \<or>
     (8192 \<le> c \<and> c \<le> 8202) \<or> c = 8232 \<or> c = 8233 \<or> c = 8239 \<or> c = 8287 \<or>
     c = 12288"

text \<open>\<open>[A-Z]\<close> and \<open>[.!?]\<close> of the sentence pattern.\<close>

definition is_upper :: "codepoint \<Rightarrow> bool" where
  "is_upper c \<longleftrightarrow> 65 \<le> c \<and> c \<le> 90"

definition is_terminator :: "codepoint \<Rightarrow> bool" where
  "is_terminator c \<longleftrightarrow> c = 46 \<or> c = 33 \<or> c = 63"

text \<open>\<open>s.strip()\<close>\<close>

definition strip :: "pystr \<Rightarrow> pystr" where
  "strip s = rev (dropWhile is_space (rev (dropWhile is_space s)))"

text \<open>
  \<open>s.split()\<close>: the maximal runs of non-whitespace characters. \<open>cur\<close> is the word being
  read, reversed.
\<close>

fun split_ws_from :: "pystr \<Rightarrow> pystr \<Rightarrow> pystr list" where
  "split_ws_from cur [] = (if cur = [] then [] else [rev cur])"
| "split_ws_from cur (c # cs) =
     (if is_space c
      then (if cur = [] then split_ws_from [] cs else rev cur # split_ws_from [] cs)
      else split_ws_from (c # cur) cs)"

definition split_ws :: "pystr \<Rightarrow> pystr list" where
  "split_ws s = split_ws_from [] s"

text \<open>\<open>' '.join(parts)\<close>\<close>

fun join_sp :: "pystr list \<Rightarrow> pystr" where
  "join_sp [] = []"
| "join_sp [x] = x"
| "join_sp (x # y # ys) = x @ [32] @ join_sp (y # ys)"

text \<open>\<open>str(n)\<close> for a non-negative integer, and \<open>str(i)\<close> for any integer.\<close>

fun str_nat :: "nat \<Rightarrow> pystr" where
  "str_nat n = (if n < 10 then [48 + n] else str_nat (n div 10) @ [48 + n mod 10])"

declare str_nat.simps [simp del]

definition str_int :: "int \<Rightarrow> pystr" where
  "str_int i = (if i < 0 then 45 # str_nat (nat (- i)) else str_nat (nat i))"

section \<open>The regular-expression splits of the chunker\<close>

text \<open>
  \<open>re.split(r'\n\s*\n', text)\<close>. A match starts at a newline. \<open>\s*\<close> is greedy and a
  newline is itself whitespace, so the match runs through the last newline of the
  maximal whitespace run that follows the first newline; when that run holds no
  newline there is no match at this position. The pieces between the matches are
  returned, the empty ones too. \<open>cur\<close> is the piece being read, reversed.
\<close>

fun re_split_blank_lines :: "pystr \<Rightarrow> pystr \<Rightarrow> pystr list" where
  "re_split_blank_lines cur [] = [rev cur]"
| "re_split_blank_lines cur (c # cs) =
     (if c = 10 \<and> 10 \<in> set (takeWhile is_space cs)
      then rev cur #
           re_split_blank_lines []
             (drop (length (dropWhile (\<lambda>x. x \<noteq> 10) (rev (takeWhile is_space cs)))) cs)
      else re_split_blank_lines (c # cur) cs)"

text \<open>
  \<open>re.split(r'(?<=[.!?])\s+(?=[A-Z])', text)\<close>. A match starts at a whitespace character
  that follows one of \<open>.!?\<close>, takes the whole whitespace run (a shorter run would be
  followed by whitespace, not by a capital) and needs a capital letter right after it.
  The character before the current position is the head of \<open>cur\<close>; when \<open>cur\<close> is empty
  the position is the start of the text or the end of a match, and the look-behind
  fails in both (no character, or a whitespace character).
\<close>

function re_split_sentences :: "pystr \<Rightarrow> pystr \<Rightarrow> pystr list" where
  "re_split_sentences cur [] = [rev cur]"
| "re_split_sentences cur (c # cs) =
     (if (case cur of [] \<Rightarrow> False | p # _ \<Rightarrow> is_terminator p) \<and> is_space c \<and>
         (case dropWhile is_space cs of [] \<Rightarrow> False | u # _ \<Rightarrow> is_upper u)
      then rev cur # re_split_sentences [] (dropWhile is_space cs)
      else re_split_sentences (c # cur) cs)"
  by pat_completeness auto
termination
  by (relation "measure (\<lambda>(cur, cs). length cs)")
     (auto simp: less_Suc_eq_le length_dropWhile_le)

section \<open>The chunker (RAG/chunking.py)\<close>

datatype meta_value = MInt int | MStr pystr

type_synonym pydict = "(pystr \<times> meta_value) list"

text \<open>
  Storing a key in a dictionary: an existing key keeps its place and takes the new
  value, a new key goes to the end.
\<close>

fun dict_set :: "pydict \<Rightarrow> pystr \<Rightarrow> meta_value \<Rightarrow> pydict" where
  "dict_set [] k v = [(k, v)]"
| "dict_set ((k', v') # d) k v = (if k' = k then (k, v) # d else (k', v') # dict_set d k v)"

record chunk =
  text_field :: pystr
  chunk_id :: pystr
  source_id :: pystr
  source_url :: pystr
  title :: pystr
  chunk_index :: nat
  metadata :: pydict

text \<open>
  A document: \<open>id\<close> is read with \<open>doc['id']\<close>; the other fields are read with
  \<open>doc.get(key, default)\<close> and may be missing.
\<close>

record document =
  doc_id :: pystr
  doc_source_url :: "pystr option"
  doc_title :: "pystr option"
  doc_text :: "pystr option"
  doc_meta :: "pydict option"

record chunker =
  chunk_size :: int
  chunk_overlap :: int
  min_chunk_size :: int
  respect_sentences :: bool
  respect_paragraphs :: bool

text \<open>The defaults of \<open>SmartChunker.__init__\<close>.\<close>

definition default_chunker :: chunker where
  "default_chunker =
     \<lparr>chunk_size = 900, chunk_overlap = 50, min_chunk_size = 150,
      respect_sentences = True, respect_paragraphs = True\<rparr>"

definition split_into_paragraphs :: "pystr \<Rightarrow> pystr list" where
  "split_into_paragraphs t =
     map strip (filter (\<lambda>p. strip p \<noteq> []) (re_split_blank_lines [] t))"

definition split_into_sentences :: "pystr \<Rightarrow> pystr list" where
  "split_into_sentences t =
     map strip (filter (\<lambda>s. strip s \<noteq> []) (re_split_sentences [] t))"

definition estimate_tokens :: "pystr \<Rightarrow> nat" where
  "estimate_tokens t = length t div 4"

text \<open>
  The sentence loop of \<open>_split_paragraph\<close>: \<open>chunks\<close>, \<open>current_chunk\<close> and
  \<open>current_size\<close> are the loop's variables; the last equation is the flush after the loop.
\<close>

fun pack_sentences :: "chunker \<Rightarrow> pystr list \<Rightarrow> pystr list \<Rightarrow> pystr list \<Rightarrow> nat \<Rightarrow> pystr list" where
  "pack_sentences cfg [] chunks current_chunk current_size =
     (if current_chunk \<noteq> [] then chunks @ [join_sp current_chunk] else chunks)"
| "pack_sentences cfg (sentence # rest) chunks current_chunk current_size =
     (let sentence_size = estimate_tokens sentence in
      if int (current_size + sentence_size) > chunk_size cfg \<and> current_chunk \<noteq> []
      then
        (if chunk_overlap cfg > 0
         then
           (let overlap_sentences =
                  (if length current_chunk \<ge> 2
                   then drop (length current_chunk - 2) current_chunk
                   else current_chunk);
                new_chunk = overlap_sentences @ [sentence]
            in pack_sentences cfg rest (chunks @ [join_sp current_chunk]) new_chunk
                 (sum_list (map estimate_tokens new_chunk)))
         else pack_sentences cfg rest (chunks @ [join_sp current_chunk]) [sentence] sentence_size)
      else pack_sentences cfg rest chunks (current_chunk @ [sentence])
             (current_size + sentence_size))"

text \<open>The word loop of \<open>_split_paragraph\<close>; a word is sized with one trailing space.\<close>

definition word_size :: "pystr \<Rightarrow> nat" where
  "word_size w = estimate_tokens (w @ [32])"

fun pack_words :: "chunker \<Rightarrow> pystr list \<Rightarrow> pystr list \<Rightarrow> pystr list \<Rightarrow> nat \<Rightarrow> pystr list" where
  "pack_words cfg [] chunks current_chunk current_size =
     (if current_chunk \<noteq> [] then chunks @ [join_sp current_chunk] else chunks)"
| "pack_words cfg (word # rest) chunks current_chunk current_size =
     (if int (current_size + word_size word) > chunk_size cfg \<and> current_chunk \<noteq> []
      then
        (if chunk_overlap cfg > 0
         then
           (let overlap_words =
                  (if int (length current_chunk) \<ge> chunk_overlap cfg
                   then drop (length current_chunk - nat (chunk_overlap cfg)) current_chunk
                   else current_chunk);
                new_chunk = overlap_words @ [word]
            in pack_words cfg rest (chunks @ [join_sp current_chunk]) new_chunk
                 (sum_list (map word_size new_chunk)))
         else pack_words cfg rest (chunks @ [join_sp current_chunk]) [word] (word_size word))
      else pack_words cfg rest chunks (current_chunk @ [word]) (current_size + word_size word))"

definition split_paragraph :: "chunker \<Rightarrow> pystr \<Rightarrow> pystr list" where
  "split_paragraph cfg paragraph =
     (if int (estimate_tokens paragraph) \<le> chunk_size cfg then [paragraph]
      else if respect_sentences cfg
      then pack_sentences cfg (split_into_sentences paragraph) [] [] 0
      else pack_words cfg (split_ws paragraph) [] [] 0)"

text \<open>\<open>doc.get(key, default)\<close>\<close>

definition get_or :: "'a option \<Rightarrow> 'a \<Rightarrow> 'a" where
  "get_or v d = (case v of None \<Rightarrow> d | Some x \<Rightarrow> x)"

text \<open>
  The paragraph branch of \<open>chunk_document\<close>. The inner loop runs over
  \<open>enumerate(para_chunks)\<close> (\<open>chunk_idx\<close> counts the chunks of the paragraph, kept or
  not; \<open>n_total\<close> is \<open>len(para_chunks)\<close>), the outer loop over \<open>enumerate(paragraphs)\<close>;
  \<open>chunks\<close> is the list built so far.
\<close>

definition paragraph_chunk :: "document \<Rightarrow> nat \<Rightarrow> nat \<Rightarrow> nat \<Rightarrow> nat \<Rightarrow> pystr \<Rightarrow> chunk" where
  "paragraph_chunk doc para_idx chunk_idx n_total n chunk_text =
     \<lparr>text_field = chunk_text,
      chunk_id = doc_id doc @ py ''_chunk_'' @ str_nat para_idx @ py ''_'' @ str_nat chunk_idx,
      source_id = doc_id doc,
      source_url = get_or (doc_source_url doc) [],
      title = get_or (doc_title doc) [],
      chunk_index = n,
      metadata =
        dict_set
          (dict_set
             (dict_set (get_or (doc_meta doc) []) (py ''paragraph_index'') (MInt (int para_idx)))
             (py ''chunk_in_paragraph'') (MInt (int chunk_idx)))
          (py ''total_chunks'') (MInt (int n_total))\<rparr>"

fun paragraph_loop ::
  "chunker \<Rightarrow> document \<Rightarrow> nat \<Rightarrow> nat \<Rightarrow> nat \<Rightarrow> pystr list \<Rightarrow> chunk list \<Rightarrow> chunk list" where
  "paragraph_loop cfg doc para_idx n_total chunk_idx [] chunks = chunks"
| "paragraph_loop cfg doc para_idx n_total chunk_idx (chunk_text # rest) chunks =
     (if int (estimate_tokens chunk_text) < min_chunk_size cfg
      then paragraph_loop cfg doc para_idx n_total (Suc chunk_idx) rest chunks
      else paragraph_loop cfg doc para_idx n_total (Suc chunk_idx) rest
             (chunks @
              [paragraph_chunk doc para_idx chunk_idx n_total (length chunks) chunk_text]))"

fun document_loop :: "chunker \<Rightarrow> document \<Rightarrow> nat \<Rightarrow> pystr list \<Rightarrow> chunk list \<Rightarrow> chunk list" where
  "document_loop cfg doc para_idx [] chunks = chunks"
| "document_loop cfg doc para_idx (paragraph # rest) chunks =
     (let para_chunks = split_paragraph cfg paragraph
      in document_loop cfg doc (Suc para_idx) rest
           (paragraph_loop cfg doc para_idx (length para_chunks) 0 para_chunks chunks))"

text \<open>The branch of \<open>chunk_document\<close> without paragraphs.\<close>

definition plain_chunk :: "document \<Rightarrow> nat \<Rightarrow> pystr \<Rightarrow> chunk" where
  "plain_chunk doc chunk_idx chunk_text =
     \<lparr>text_field = chunk_text,
      chunk_id = doc_id doc @ py ''_chunk_'' @ str_nat chunk_idx,
      source_id = doc_id doc,
      source_url = get_or (doc_source_url doc) [],
      title = get_or (doc_title doc) [],
      chunk_index = chunk_idx,
      metadata = get_or (doc_meta doc) []\<rparr>"

fun plain_loop :: "chunker \<Rightarrow> document \<Rightarrow> nat \<Rightarrow> pystr list \<Rightarrow> chunk list \<Rightarrow> chunk list" where
  "plain_loop cfg doc chunk_idx [] chunks = chunks"
| "plain_loop cfg doc chunk_idx (chunk_text # rest) chunks =
     (if int (estimate_tokens chunk_text) < min_chunk_size cfg
      then plain_loop cfg doc (Suc chunk_idx) rest chunks
      else plain_loop cfg doc (Suc chunk_idx) rest
             (chunks @ [plain_chunk doc chunk_idx chunk_text]))"

definition chunk_document :: "chunker \<Rightarrow> document \<Rightarrow> chunk list" where
  "chunk_document cfg doc =
     (let t = get_or (doc_text doc) [] in
      if t = [] then []
      else if respect_paragraphs cfg
      then document_loop cfg doc 0 (split_into_paragraphs t) []
      else plain_loop cfg doc 0 (split_paragraph cfg t) [])"

text \<open>
  The test of the two filtering loops, and the chunk texts before that test: the output
  of \<open>_split_paragraph\<close> for every paragraph in turn, or for the whole text.
\<close>

definition keeps :: "chunker \<Rightarrow> pystr \<Rightarrow> bool" where
  "keeps cfg t \<longleftrightarrow> \<not> int (estimate_tokens t) < min_chunk_size cfg"

definition candidate_chunks :: "chunker \<Rightarrow> document \<Rightarrow> pystr list" where
  "candidate_chunks cfg doc =
     (let t = get_or (doc_text doc) [] in
      if t = [] then []
      else if respect_paragraphs cfg
      then concat (map (split_paragraph cfg) (split_into_paragraphs t))
      else split_paragraph cfg t)"

subsection \<open>Example inputs\<close>

definition example_text :: pystr where
  "example_text =
     py ''Para one sentence. Para one second sentence.'' @ [10, 10] @ py ''Para two.''"

definition example_doc :: document where
  "example_doc =
     \<lparr>doc_id = py ''d1'', doc_source_url = None, doc_title = None,
      doc_text = Some example_text, doc_meta = None\<rparr>"

definition gap_text :: pystr where
  "gap_text = py ''Aaaa bbbb cccc.'' @ [10, 10] @ py ''Dd.'' @ [10, 10] @ py ''Eeee ffff gggg.''"

definition gap_doc :: document where
  "gap_doc =
     \<lparr>doc_id = py ''d1'', doc_source_url = None, doc_title = None,
      doc_text = Some gap_text, doc_meta = None\<rparr>"

definition min3_chunker :: chunker where
  "min3_chunker =
     \<lparr>chunk_size = 900, chunk_overlap = 50, min_chunk_size = 3,
      respect_sentences = True, respect_paragraphs = True\<rparr>"

definition min2_chunker :: chunker where
  "min2_chunker =
     \<lparr>chunk_size = 900, chunk_overlap = 50, min_chunk_size = 2,
      respect_sentences = True, respect_paragraphs = True\<rparr>"

definition plain_chunker :: chunker where
  "plain_chunker =
     \<lparr>chunk_size = 1, chunk_overlap = 0, min_chunk_size = 1,
      respect_sentences = False, respect_paragraphs = False\<rparr>"

definition plain_doc :: "pystr \<Rightarrow> document" where
  "plain_doc t =
     \<lparr>doc_id = py ''d1'', doc_source_url = None, doc_title = None,
      doc_text = Some t, doc_meta = None\<rparr>"

subsection \<open>The buffers behind the chunks of an oversized paragraph\<close>

text \<open>
  \<open>last_units n xs\<close> is the last \<open>min n (len xs)\<close> elements of \<open>xs\<close>.
\<close>

definition last_units :: "nat \<Rightarrow> 'a list \<Rightarrow> 'a list" where
  "last_units n xs = drop (length xs - min n (length xs)) xs"

text \<open>
  The two loops of \<open>_split_paragraph\<close> once more, recording each flushed
  \<open>current_chunk\<close> as the list of its units instead of the joined string; the chunks of
  \<open>_split_paragraph\<close> are these buffers joined with spaces (lemmas
  \<open>pack_sentences_buffers\<close> and \<open>pack_words_buffers\<close>).
\<close>

fun sentence_buffers ::
  "chunker \<Rightarrow> pystr list \<Rightarrow> pystr list list \<Rightarrow> pystr list \<Rightarrow> nat \<Rightarrow> pystr list list" where
  "sentence_buffers cfg [] buffers current_chunk current_size =
     (if current_chunk \<noteq> [] then buffers @ [current_chunk] else buffers)"
| "sentence_buffers cfg (sentence # rest) buffers current_chunk current_size =
     (let sentence_size = estimate_tokens sentence in
      if int (current_size + sentence_size) > chunk_size cfg \<and> current_chunk \<noteq> []
      then
        (if chunk_overlap cfg > 0
         then
           (let overlap_sentences =
                  (if length current_chunk \<ge> 2
                   then drop (length current_chunk - 2) current_chunk
                   else current_chunk);
                new_chunk = overlap_sentences @ [sentence]
            in sentence_buffers cfg rest (buffers @ [current_chunk]) new_chunk
                 (sum_list (map estimate_tokens new_chunk)))
         else sentence_buffers cfg rest (buffers @ [current_chunk]) [sentence] sentence_size)
      else sentence_buffers cfg rest buffers (current_chunk @ [sentence])
             (current_size + sentence_size))"

fun word_buffers ::
  "chunker \<Rightarrow> pystr list \<Rightarrow> pystr list list \<Rightarrow> pystr list \<Rightarrow> nat \<Rightarrow> pystr list list" where
  "word_buffers cfg [] buffers current_chunk current_size =
     (if current_chunk \<noteq> [] then buffers @ [current_chunk] else buffers)"
| "word_buffers cfg (word # rest) buffers current_chunk current_size =
     (if int (current_size + word_size word) > chunk_size cfg \<and> current_chunk \<noteq> []
      then
        (if chunk_overlap cfg > 0
         then
           (let overlap_words =
                  (if int (length current_chunk) \<ge> chunk_overlap cfg
                   then drop (length current_chunk - nat (chunk_overlap cfg)) current_chunk
                   else current_chunk);
                new_chunk = overlap_words @ [word]
            in word_buffers cfg rest (buffers @ [current_chunk]) new_chunk
                 (sum_list (map word_size new_chunk)))
         else word_buffers cfg rest (buffers @ [current_chunk]) [word] (word_size word))
      else word_buffers cfg rest buffers (current_chunk @ [word]) (current_size + word_size word))"

definition overlap_words_chunker :: chunker where
  "overlap_words_chunker =
     \<lparr>chunk_size = 1, chunk_overlap = 1, min_chunk_size = 0,
      respect_sentences = False, respect_paragraphs = True\<rparr>"

definition overlap_sentences_chunker :: chunker where
  "overlap_sentences_chunker =
     \<lparr>chunk_size = 1, chunk_overlap = 1, min_chunk_size = 0,
      respect_sentences = True, respect_paragraphs = True\<rparr>"

text \<open>
  \<open>seeded size_of limit n b c\<close>: the buffer \<open>c\<close> starts with the last \<open>min n (len b)\<close>
  units of the buffer \<open>b\<close>, followed by a unit \<open>u\<close> that did not fit in \<open>b\<close> (adding its
  size to the sizes of \<open>b\<close> exceeds the limit), followed by the units added later.
\<close>

definition seeded :: "(pystr \<Rightarrow> nat) \<Rightarrow> int \<Rightarrow> nat \<Rightarrow> pystr list \<Rightarrow> pystr list \<Rightarrow> bool" where
  "seeded size_of limit n b c \<longleftrightarrow>
     (\<exists>u more. c = last_units n b @ u # more \<and>
                int (sum_list (map size_of b) + size_of u) > limit)"

section \<open>The retrieval system (RAG/rag_system.py)\<close>

subsection \<open>Collaborators and data\<close>

type_synonym path = pystr

text \<open>An exception raised by a collaborator, by its message.\<close>

type_synonym exn = pystr

text \<open>
  The errors of the system: \<open>RuntimeError\<close> of \<open>search\<close>, \<open>FileNotFoundError\<close> of
  \<open>load_index\<close>, \<open>ConnectionError\<close> of \<open>_generate_with_ollama\<close>, and the exceptions
  that the system lets through: of \<open>os.listdir\<close>, and of the other collaborators and
  built-in functions.
\<close>

datatype error =
  NotLoaded | NoIndexFound | GenerationUnavailable | OSError exn | ProviderError exn

text \<open>
  A Python \<open>float\<close>: an infinity, a finite number or NaN. \<open>float_key\<close> orders the
  values other than NaN; \<open>float_le a b\<close> is \<open>a <= b\<close>, which is false when either side
  is NaN.
\<close>

datatype pyfloat = NegInf | Num real | PosInf | NaN

fun float_key :: "pyfloat \<Rightarrow> int \<times> real" where
  "float_key NegInf = (- 1, 0)"
| "float_key (Num r) = (0, r)"
| "float_key PosInf = (1, 0)"
| "float_key NaN = (2, 0)"

definition float_le :: "pyfloat \<Rightarrow> pyfloat \<Rightarrow> bool" where
  "float_le a b \<longleftrightarrow> a \<noteq> NaN \<and> b \<noteq> NaN \<and> float_key a \<le> float_key b"

text \<open>
  A hit as the index provider returns it: a bare string, or a dictionary read with
  \<open>get\<close> under the keys \<open>text\<close>, \<open>content\<close>, \<open>score\<close> (a float) and \<open>rank\<close> (an
  integer).
\<close>

record raw_fields =
  raw_text :: "pystr option"
  raw_content :: "pystr option"
  raw_score :: "pyfloat option"
  raw_rank :: "int option"

datatype raw_hit = RawStr pystr | RawDict raw_fields

text \<open>An entry of \<open>chunks_metadata.json\<close>, every key read with \<open>get\<close>.\<close>

record chunk_meta =
  meta_chunk_id :: "pystr option"
  meta_text :: "pystr option"
  meta_title :: "pystr option"
  meta_source_url :: "pystr option"
  meta_metadata :: "pydict option"

record hit =
  hit_chunk_id :: pystr
  hit_text :: pystr
  hit_score :: pyfloat
  hit_title :: pystr
  hit_source_url :: pystr
  hit_metadata :: pydict
  hit_index_path :: path

record source =
  source_title :: pystr
  source_link :: pystr
  relevance_score :: pyfloat

record answer =
  answer_text :: pystr
  sources :: "source list"
  search_results :: "hit list"

text \<open>\<open>DocumentCompressor.compress_documents(documents, query)\<close>, which may raise.\<close>

type_synonym compressor_fn = "hit list \<Rightarrow> pystr \<Rightarrow> exn + hit list"

text \<open>
  What the system reaches outside itself. The file system: \<open>os.path\<close>, and \<open>os.listdir\<close>,
  which raises on a path that is not a readable directory; \<open>os_relpath p\<close> is
  \<open>os.path.relpath(p, os.getcwd())\<close>. The files: the JSONL file of documents, the
  metadata file read at search time, and the metadata file written at build time
  (\<open>os.makedirs\<close>, \<open>open\<close> and \<open>json.dump\<close>). The index provider:
  \<open>RAGPretrainedModel.from_index\<close>, \<open>model.search\<close>, and the building of an index from
  texts (\<open>from_pretrained\<close> and \<open>index\<close>). The Ollama server: the liveness probe of
  \<open>_check_ollama_connection\<close> and the generation request, whose answer may lack the
  \<open>response\<close> key. Two built-in functions: \<open>float(r)\<close> for an integer \<open>r\<close>, which rounds
  to the nearest double and raises \<open>OverflowError\<close> beyond the range of doubles; and
  \<open>list.sort(key=score, reverse=True)\<close> on hits of which at least one has the score NaN,
  where the order that comes out is the one CPython's merge strategy happens to produce
  (on scores without NaN the result is fixed by the language: sorted, equal scores in
  their former order; that case is written out in \<open>sort_reverse\<close>). \<open>'m\<close> is the type of
  a loaded model.
\<close>

record 'm env =
  os_exists :: "path \<Rightarrow> bool"
  os_isdir :: "path \<Rightarrow> bool"
  os_listdir :: "path \<Rightarrow> exn + path list"
  os_abspath :: "path \<Rightarrow> path"
  os_basename :: "path \<Rightarrow> path"
  os_relpath :: "path \<Rightarrow> path"
  os_join :: "path list \<Rightarrow> path"
  read_jsonl :: "path \<Rightarrow> exn + document list"
  read_chunks_metadata :: "path \<Rightarrow> exn + (pystr \<Rightarrow> chunk_meta option)"
  write_chunks_metadata :: "path \<Rightarrow> chunk list \<Rightarrow> exn + unit"
  build_colbert_index :: "pystr \<Rightarrow> pystr list \<Rightarrow> exn + unit"
  from_index :: "path \<Rightarrow> exn + 'm"
  model_search :: "'m \<Rightarrow> pystr \<Rightarrow> int \<Rightarrow> exn + raw_hit list"
  ollama_alive :: bool
  ollama_post :: "pystr \<Rightarrow> exn + pystr option"
  float_of_int :: "int \<Rightarrow> exn + pyfloat"
  sort_with_nan :: "hit list \<Rightarrow> hit list"

text \<open>
  The calls to the index provider, the compressor and the Ollama server, and the
  warnings printed, in the order they happen.
\<close>

datatype event =
    FromIndex path
  | ModelSearch path pystr int
  | Compress pystr
  | OllamaProbe
  | OllamaGenerate pystr
  | WarnDirectoryNotFound path
  | WarnNoIndexDiscovered
  | WarnPreloadFailed path exn
  | WarnCompressorFilteredAll
  | WarnCompressionError error

text \<open>The fields of a \<open>SysAdminRAG\<close> object that the operations below read or write.\<close>

record 'm rag =
  index_paths :: "path list"
  index_path :: path
  the_chunker :: chunker
  index_loaded :: bool
  shard_models :: "(path \<times> 'm) list"
  use_compression :: bool
  compressor :: "compressor_fn option"
  events :: "event list"

text \<open>
  \<open>__init__\<close>. \<open>made\<close> is the compressor when compression was asked for, langchain is
  installed and the construction succeeded, and \<open>None\<close> otherwise.
\<close>

definition new_rag ::
  "path \<Rightarrow> path list option \<Rightarrow> int \<Rightarrow> int \<Rightarrow> compressor_fn option \<Rightarrow> 'm rag" where
  "new_rag ipath ipaths csize coverlap made =
     \<lparr>index_paths = (case ipaths of Some (p # ps) \<Rightarrow> p # ps | _ \<Rightarrow> [ipath]),
      index_path = (case ipaths of Some (p # ps) \<Rightarrow> p | _ \<Rightarrow> ipath),
      the_chunker = default_chunker\<lparr>chunk_size := csize, chunk_overlap := coverlap\<rparr>,
      index_loaded = False,
      shard_models = [],
      use_compression = (made \<noteq> None),
      compressor = made,
      events = []\<rparr>"

definition log_events :: "event list \<Rightarrow> 'm rag \<Rightarrow> 'm rag" where
  "log_events evs st = st\<lparr>events := events st @ evs\<rparr>"

subsection \<open>Building an index\<close>

text \<open>
  \<open>build_index\<close>: nothing happens when the index exists and no rebuild is forced;
  otherwise the documents are chunked, the index is built and the chunk metadata
  written, and the object is marked as loaded. Any failure on the way is let through.
\<close>

definition build_index :: "'m env \<Rightarrow> path \<Rightarrow> bool \<Rightarrow> 'm rag \<Rightarrow> (error + unit) \<times> 'm rag" where
  "build_index e jsonl_path force_rebuild st =
     (if os_exists e (index_path st) \<and> \<not> force_rebuild then (Inr (), st)
      else
        (case read_jsonl e jsonl_path of
           Inl x \<Rightarrow> (Inl (ProviderError x), st)
         | Inr docs \<Rightarrow>
             (let chunks = concat (map (chunk_document (the_chunker st)) docs);
                  index_name = os_relpath e (os_abspath e (index_path st))
              in case build_colbert_index e index_name (map text_field chunks) of
                   Inl x \<Rightarrow> (Inl (ProviderError x), st)
                 | Inr _ \<Rightarrow>
                     (case write_chunks_metadata e
                             (os_join e
                                [os_join e [py ''.ragatouille'', py ''colbert'', py ''indexes'',
                                            index_name],
                                 py ''chunks_metadata.json''])
                             chunks of
                        Inl x \<Rightarrow> (Inl (ProviderError x), st)
                      | Inr _ \<Rightarrow> (Inr (), st\<lparr>index_loaded := True\<rparr>)))))"

subsection \<open>Finding and loading the shards\<close>

definition get_index_path :: "'m env \<Rightarrow> path \<Rightarrow> path option" where
  "get_index_path e base_index_path =
     (let abs_base_path = os_abspath e base_index_path;
          index_name = os_basename e abs_base_path;
          ipath = os_join e [py ''.ragatouille'', py ''colbert'', py ''indexes'', index_name]
      in if os_exists e ipath then Some ipath
         else if os_exists e abs_base_path then Some abs_base_path
         else None)"

text \<open>The test of \<open>_discover_indexes\<close> on one entry of the base directory.\<close>

definition is_index_dir :: "'m env \<Rightarrow> path \<Rightarrow> bool" where
  "is_index_dir e item_path \<longleftrightarrow>
     os_isdir e item_path \<and>
     (os_exists e (os_join e [item_path, py ''index_path.txt'']) \<or>
      os_exists e (os_join e [item_path, py ''chunks_metadata.json'']) \<or>
      os_exists e (os_join e [item_path, py ''index_name.txt'']) \<or>
      os_exists e (os_relpath e (os_abspath e item_path)))"

text \<open>
  \<open>_discover_indexes\<close>: the directories found and the warning printed if any. The base
  directory is listed once it exists; an exception of \<open>os.listdir\<close> is not caught.
\<close>

definition discover_indexes :: "'m env \<Rightarrow> path \<Rightarrow> (exn + path list) \<times> event list" where
  "discover_indexes e base_dir =
     (let base = os_join e [py ''.ragatouille'', py ''colbert'', py ''indexes'', base_dir]
      in if \<not> os_exists e base then (Inr [], [WarnDirectoryNotFound base])
         else
           (case os_listdir e base of
              Inl x \<Rightarrow> (Inl x, [])
            | Inr items \<Rightarrow>
                (Inr (filter (is_index_dir e) (map (\<lambda>item. os_join e [base, item]) items)),
                 [])))"

text \<open>
  The first part of \<open>load_index\<close>: with \<open>auto_discover\<close>, every path of \<open>index_paths\<close> is
  searched in turn, and the paths found replace \<open>index_paths\<close> when there are any.
\<close>

fun discover_all ::
  "'m env \<Rightarrow> path list \<Rightarrow> path list \<Rightarrow> (exn + path list) \<times> event list" where
  "discover_all e [] discovered_indexes = (Inr discovered_indexes, [])"
| "discover_all e (base_path # rest) discovered_indexes =
     (case discover_indexes e base_path of
        (Inl x, evs) \<Rightarrow> (Inl x, evs)
      | (Inr discovered, evs) \<Rightarrow>
          (case discover_all e rest (discovered_indexes @ discovered) of
             (r, evs') \<Rightarrow> (r, evs @ evs')))"

definition auto_discovery :: "'m env \<Rightarrow> bool \<Rightarrow> 'm rag \<Rightarrow> (exn + unit) \<times> 'm rag" where
  "auto_discovery e auto_discover st =
     (if auto_discover
      then
        (case discover_all e (index_paths st) [] of
           (Inl x, evs) \<Rightarrow> (Inl x, log_events evs st)
         | (Inr discovered_indexes, evs) \<Rightarrow>
             if discovered_indexes \<noteq> []
             then (Inr (), (log_events evs st)\<lparr>index_paths := discovered_indexes\<rparr>)
             else (Inr (), log_events (evs @ [WarnNoIndexDiscovered]) st))
      else (Inr (), st))"

text \<open>
  The loop of \<open>load_index\<close> over \<open>index_paths\<close>. The model is constructed outside the
  \<open>try\<close>, so a failing construction ends the loop with the exception; the warm-up
  search is inside it, and the model is appended to \<open>shard_models\<close> after the \<open>try\<close>
  statement whether the warm-up failed or not. \<open>if path:\<close> holds for a path that is
  neither \<open>None\<close> nor empty.
\<close>

fun load_loop ::
  "'m env \<Rightarrow> path list \<Rightarrow> (path \<times> path) list \<Rightarrow> 'm rag \<Rightarrow> (exn + (path \<times> path) list) \<times> 'm rag" where
  "load_loop e [] existing st = (Inr existing, st)"
| "load_loop e (base # bases) existing st =
     (case get_index_path e base of
        None \<Rightarrow> load_loop e bases existing st
      | Some p \<Rightarrow>
          if p = [] then load_loop e bases existing st
          else
            (case from_index e (os_abspath e p) of
               Inl x \<Rightarrow> (Inl x, log_events [FromIndex (os_abspath e p)] st)
             | Inr model \<Rightarrow>
                 (let warm_up =
                        (case model_search e model (py '' '') 1 of
                           Inl x \<Rightarrow> [WarnPreloadFailed p x]
                         | Inr _ \<Rightarrow> []);
                      st1 = log_events
                              ([FromIndex (os_abspath e p), ModelSearch p (py '' '') 1] @ warm_up) st
                  in load_loop e bases (existing @ [(base, p)])
                       (st1\<lparr>shard_models := shard_models st1 @ [(p, model)]\<rparr>))))"

definition load_index :: "'m env \<Rightarrow> bool \<Rightarrow> 'm rag \<Rightarrow> (error + unit) \<times> 'm rag" where
  "load_index e auto_discover st =
     (case auto_discovery e auto_discover st of
        (Inl x, st1) \<Rightarrow> (Inl (OSError x), st1)
      | (Inr _, st1) \<Rightarrow>
          (case load_loop e (index_paths st1) [] st1 of
             (Inl x, st2) \<Rightarrow> (Inl (ProviderError x), st2)
           | (Inr existing, st2) \<Rightarrow>
               if existing = [] then (Inl NoIndexFound, st2)
               else (Inr (), st2\<lparr>index_loaded := True\<rparr>)))"

subsection \<open>Searching\<close>

text \<open>\<open>metadata.get(key, default)\<close> on an entry that may itself be missing.\<close>

definition meta_get :: "chunk_meta option \<Rightarrow> (chunk_meta \<Rightarrow> 'a option) \<Rightarrow> 'a \<Rightarrow> 'a" where
  "meta_get m field d = (case m of None \<Rightarrow> d | Some entry \<Rightarrow> get_or (field entry) d)"

text \<open>
  One step of the loop of \<open>_search_single_index\<close>. \<open>float(score)\<close> leaves a float as it
  is and converts a rank, which may raise.
\<close>

definition format_result ::
  "'m env \<Rightarrow> (pystr \<Rightarrow> chunk_meta option) \<Rightarrow> path \<Rightarrow> nat \<Rightarrow> raw_hit \<Rightarrow> exn + hit" where
  "format_result e chunks_metadata ipath idx result =
     (let (t, score, result_idx) =
            (case result of
               RawStr s \<Rightarrow> (s, Inr (Num 1), str_nat idx)
             | RawDict d \<Rightarrow>
                 (get_or (raw_text d) (get_or (raw_content d) []),
                  (case raw_score d of
                     Some v \<Rightarrow> Inr v
                   | None \<Rightarrow>
                       (case raw_rank d of Some r \<Rightarrow> float_of_int e r | None \<Rightarrow> Inr (Num 1))),
                  str_int (get_or (raw_rank d) (int idx))));
          m = chunks_metadata result_idx
      in case score of
           Inl x \<Rightarrow> Inl x
         | Inr v \<Rightarrow>
             Inr \<lparr>hit_chunk_id = meta_get m meta_chunk_id result_idx,
                  hit_text = (if t \<noteq> [] then t else meta_get m meta_text []),
                  hit_score = v,
                  hit_title = meta_get m meta_title [],
                  hit_source_url = meta_get m meta_source_url [],
                  hit_metadata = meta_get m meta_metadata [],
                  hit_index_path = ipath\<rparr>)"

fun format_results ::
  "'m env \<Rightarrow> (pystr \<Rightarrow> chunk_meta option) \<Rightarrow> path \<Rightarrow> nat \<Rightarrow> raw_hit list \<Rightarrow> hit list \<Rightarrow>
     exn + hit list" where
  "format_results e chunks_metadata ipath idx [] formatted_results = Inr formatted_results"
| "format_results e chunks_metadata ipath idx (result # rest) formatted_results =
     (case format_result e chunks_metadata ipath idx result of
        Inl x \<Rightarrow> Inl x
      | Inr h \<Rightarrow>
          format_results e chunks_metadata ipath (Suc idx) rest (formatted_results @ [h]))"

text \<open>
  \<open>_search_single_index\<close>, with the call it makes to the provider. No exception is
  caught here.
\<close>

definition search_single_index ::
  "'m env \<Rightarrow> path \<Rightarrow> 'm \<Rightarrow> pystr \<Rightarrow> int \<Rightarrow> (exn + hit list) \<times> event list" where
  "search_single_index e ipath model query k =
     (case model_search e model query k of
        Inl x \<Rightarrow> (Inl x, [ModelSearch ipath query k])
      | Inr results \<Rightarrow>
          (let metadata_path = os_join e [ipath, py ''chunks_metadata.json'']
           in if os_exists e metadata_path
              then (case read_chunks_metadata e metadata_path of
                      Inl x \<Rightarrow> (Inl x, [ModelSearch ipath query k])
                    | Inr chunks_metadata \<Rightarrow>
                        (format_results e chunks_metadata ipath 0 results [],
                         [ModelSearch ipath query k]))
              else (format_results e (\<lambda>_. None) ipath 0 results [],
                    [ModelSearch ipath query k])))"

text \<open>The loop of \<open>search\<close> over the shards: every shard is asked for two hits.\<close>

fun search_shards ::
  "'m env \<Rightarrow> (path \<times> 'm) list \<Rightarrow> pystr \<Rightarrow> hit list \<Rightarrow> (exn + hit list) \<times> event list" where
  "search_shards e [] query all_results = (Inr all_results, [])"
| "search_shards e ((ipath, index_model) # rest) query all_results =
     (case search_single_index e ipath index_model query 2 of
        (Inl x, evs) \<Rightarrow> (Inl x, evs)
      | (Inr shard_results, evs) \<Rightarrow>
          (case search_shards e rest query (all_results @ shard_results) of
             (r, evs') \<Rightarrow> (r, evs @ evs')))"

text \<open>
  \<open>all_results.sort(key=lambda r: r.get('score', 0.0), reverse=True)\<close>: without NaN,
  descending by score, hits with equal scores keeping their order; with a NaN among
  the scores, whatever the built-in sort leaves.
\<close>

definition sort_reverse :: "'m env \<Rightarrow> hit list \<Rightarrow> hit list" where
  "sort_reverse e xs =
     (if NaN \<in> set (map hit_score xs) then sort_with_nan e xs
      else rev (sort_key (\<lambda>r. float_key (hit_score r)) (rev xs)))"

text \<open>\<open>xs[:k]\<close> for any integer \<open>k\<close>.\<close>

definition slice_to :: "int \<Rightarrow> 'a list \<Rightarrow> 'a list" where
  "slice_to k xs = (if k \<ge> 0 then take (nat k) xs else take (length xs - nat (- k)) xs)"

definition search :: "'m env \<Rightarrow> 'm rag \<Rightarrow> pystr \<Rightarrow> int \<Rightarrow> (error + hit list) \<times> 'm rag" where
  "search e st query k =
     (if \<not> index_loaded st then (Inl NotLoaded, st)
      else
        (case search_shards e (shard_models st) query [] of
           (Inl x, evs) \<Rightarrow> (Inl (ProviderError x), log_events evs st)
         | (Inr all_results, evs) \<Rightarrow>
             if all_results = [] then (Inr [], log_events evs st)
             else (Inr (slice_to k (sort_reverse e all_results)), log_events evs st)))"

subsection \<open>Answering\<close>

text \<open>\<open>sep.join(parts)\<close>\<close>

fun join_with :: "pystr \<Rightarrow> pystr list \<Rightarrow> pystr" where
  "join_with sep [] = []"
| "join_with sep [x] = x"
| "join_with sep (x # y # ys) = x @ sep @ join_with sep (y # ys)"

definition full_prompt :: "pystr \<Rightarrow> pystr \<Rightarrow> pystr" where
  "full_prompt prompt context =
     py ''You are an experienced Linux system administrator specializing in Ubuntu Server.'' @
     [10, 10] @
     py ''Use ONLY information from the provided documentation below. Do not make up anything.'' @
     [10, 10] @ py ''DOCUMENTATION:'' @ [10] @ context @ [10, 10] @
     py ''USER QUESTION: '' @ prompt @ [10, 10] @ py ''INSTRUCTIONS:'' @ [10] @
     py ''1. Answer clearly and structured in English'' @ [10] @
     py ''2. Use only facts from the documentation above'' @ [10] @
     py ''3. If information is insufficient, honestly say so'' @ [10] @
     py ''4. Provide specific commands and examples from the documentation'' @ [10] @
     py ''5. Avoid general phrases, be specific'' @ [10, 10] @ py ''ANSWER:''"

text \<open>
  \<open>_generate_with_ollama\<close>: a failed probe raises \<open>ConnectionError\<close>; a failure of the
  request itself becomes the text of the answer.
\<close>

definition generate_with_ollama ::
  "'m env \<Rightarrow> pystr \<Rightarrow> pystr \<Rightarrow> (error + pystr) \<times> event list" where
  "generate_with_ollama e prompt context =
     (if \<not> ollama_alive e then (Inl GenerationUnavailable, [OllamaProbe])
      else
        (case ollama_post e (full_prompt prompt context) of
           Inl x \<Rightarrow>
             (Inr (py ''Error generating answer: '' @ x),
              [OllamaProbe, OllamaGenerate (full_prompt prompt context)])
         | Inr response \<Rightarrow>
             (Inr (get_or response (py ''Sorry, failed to generate answer.'')),
              [OllamaProbe, OllamaGenerate (full_prompt prompt context)])))"

fun context_parts :: "nat \<Rightarrow> hit list \<Rightarrow> pystr list" where
  "context_parts i [] = []"
| "context_parts i (result # rest) =
     (py ''[Document '' @ str_nat i @ py '' - '' @ hit_title result @ py '']'' @ [10] @
      hit_text result) # context_parts (Suc i) rest"

definition no_information :: answer where
  "no_information =
     \<lparr>answer_text = py ''Sorry, no relevant information found to answer your question.'',
      sources = [], search_results = []\<rparr>"

text \<open>
  The compression step of \<open>ask\<close>: the results to go on with, and the state. An
  exception of the compressor leaves the results as they were; an exception of the
  second search is caught by the same handler, after the results have been replaced by
  the empty compressed list.
\<close>

definition compression_step ::
  "'m env \<Rightarrow> 'm rag \<Rightarrow> pystr \<Rightarrow> int \<Rightarrow> hit list \<Rightarrow> hit list \<times> 'm rag" where
  "compression_step e st question k found =
     (case compressor st of
        None \<Rightarrow> (found, st)
      | Some compress_documents \<Rightarrow>
          if \<not> use_compression st then (found, st)
          else
            (case compress_documents found question of
               Inl x \<Rightarrow>
                 (found, log_events [Compress question, WarnCompressionError (ProviderError x)] st)
             | Inr compressed \<Rightarrow>
                 if length compressed = 0 \<and> length found > 0
                 then
                   (case search e (log_events [Compress question, WarnCompressorFilteredAll] st)
                           question k of
                      (Inl err, st') \<Rightarrow> (compressed, log_events [WarnCompressionError err] st')
                    | (Inr again, st') \<Rightarrow> (again, st'))
                 else (compressed, log_events [Compress question] st)))"

definition ask :: "'m env \<Rightarrow> 'm rag \<Rightarrow> pystr \<Rightarrow> int \<Rightarrow> (error + answer) \<times> 'm rag" where
  "ask e st question k =
     (case search e st question k of
        (Inl err, st1) \<Rightarrow> (Inl err, st1)
      | (Inr found, st1) \<Rightarrow>
          if found = [] then (Inr no_information, st1)
          else
            (case compression_step e st1 question k found of
               (results, st2) \<Rightarrow>
                 (case generate_with_ollama e question
                         (join_with [10, 10] (context_parts 1 results)) of
                    (Inl err, evs) \<Rightarrow> (Inl err, log_events evs st2)
                  | (Inr generated, evs) \<Rightarrow>
                      (Inr \<lparr>answer_text = generated,
                            sources =
                              map (\<lambda>r. \<lparr>source_title = hit_title r, source_link = hit_source_url r,
                                         relevance_score = hit_score r\<rparr>) results,
                            search_results = results\<rparr>,
                       log_events evs st2))))"

subsection \<open>Notions used in the statements\<close>

text \<open>
  What the loop of \<open>load_index\<close> takes from \<open>_get_index_path\<close>: a path that is neither
  \<open>None\<close> nor empty. \<open>resolved\<close> lists the candidate paths that resolve, each with the
  path it resolves to; \<open>candidate_paths\<close> is \<open>index_paths\<close> after the discovery step.
\<close>

definition resolve :: "'m env \<Rightarrow> path \<Rightarrow> path option" where
  "resolve e base =
     (case get_index_path e base of None \<Rightarrow> None | Some p \<Rightarrow> if p = [] then None else Some p)"

fun resolved :: "'m env \<Rightarrow> path list \<Rightarrow> (path \<times> path) list" where
  "resolved e [] = []"
| "resolved e (base # bases) =
     (case resolve e base of None \<Rightarrow> resolved e bases | Some p \<Rightarrow> (base, p) # resolved e bases)"

definition candidate_paths :: "'m env \<Rightarrow> bool \<Rightarrow> 'm rag \<Rightarrow> path list" where
  "candidate_paths e auto_discover st = index_paths (snd (auto_discovery e auto_discover st))"

text \<open>
  The events of loading one shard whose model was constructed: the construction, the
  warm-up search, and the warning when the warm-up failed.
\<close>

definition warm_up_events :: "'m env \<Rightarrow> path \<Rightarrow> 'm \<Rightarrow> event list" where
  "warm_up_events e p model =
     [FromIndex (os_abspath e p), ModelSearch p (py '' '') 1] @
     (case model_search e model (py '' '') 1 of Inl x \<Rightarrow> [WarnPreloadFailed p x] | Inr _ \<Rightarrow> [])"

text \<open>
  What loading a list of resolved candidates comes to. \<open>loaded_shards\<close>: the shards of
  the candidates before the first one whose model cannot be constructed, whatever their
  warm-up did. \<open>load_failure\<close>: the exception of that first failing construction, if
  there is one. \<open>load_events\<close>: the events of the candidates up to and including it.
\<close>

fun loaded_shards :: "'m env \<Rightarrow> (path \<times> path) list \<Rightarrow> (path \<times> 'm) list" where
  "loaded_shards e [] = []"
| "loaded_shards e ((base, p) # rest) =
     (case from_index e (os_abspath e p) of
        Inl x \<Rightarrow> []
      | Inr model \<Rightarrow> (p, model) # loaded_shards e rest)"

fun load_failure :: "'m env \<Rightarrow> (path \<times> path) list \<Rightarrow> exn option" where
  "load_failure e [] = None"
| "load_failure e ((base, p) # rest) =
     (case from_index e (os_abspath e p) of
        Inl x \<Rightarrow> Some x
      | Inr model \<Rightarrow> load_failure e rest)"

fun load_events :: "'m env \<Rightarrow> (path \<times> path) list \<Rightarrow> event list" where
  "load_events e [] = []"
| "load_events e ((base, p) # rest) =
     (case from_index e (os_abspath e p) of
        Inl x \<Rightarrow> [FromIndex (os_abspath e p)]
      | Inr model \<Rightarrow> warm_up_events e p model @ load_events e rest)"

text \<open>
  The normalized hits of one shard asked for two hits, the provider calls that
  \<open>search\<close> makes for a list of shards, and a list of scores in non-increasing order:
  \<open>a >= b\<close> for every score \<open>a\<close> and every later score \<open>b\<close>.
\<close>

definition shard_hits :: "'m env \<Rightarrow> pystr \<Rightarrow> path \<times> 'm \<Rightarrow> hit list" where
  "shard_hits e query shard =
     (case fst (search_single_index e (fst shard) (snd shard) query 2) of
        Inl x \<Rightarrow> [] | Inr hs \<Rightarrow> hs)"

definition shard_calls :: "pystr \<Rightarrow> (path \<times> 'm) list \<Rightarrow> event list" where
  "shard_calls query shards = map (\<lambda>shard. ModelSearch (fst shard) query 2) shards"


text \<open>The events that reach the completion provider.\<close>

fun is_completion_call :: "event \<Rightarrow> bool" where
  "is_completion_call OllamaProbe = True"
| "is_completion_call (OllamaGenerate p) = True"
| "is_completion_call ev = False"

subsection \<open>Example environments and states\<close>

text \<open>
  An example environment: the directories \<open>a\<close>, \<open>b\<close> and \<open>c\<close> exist; the index under \<open>b\<close>
  cannot be opened; every warm-up search fails; the query \<open>nothing\<close> finds nothing, the
  query \<open>boom\<close> raises in the shard \<open>c\<close>, and any other query finds two hits in \<open>a\<close> and
  one in \<open>c\<close>.
\<close>

datatype demo_model = ModelA | ModelC

definition scored :: "pystr \<Rightarrow> pyfloat \<Rightarrow> raw_hit" where
  "scored t v =
     RawDict \<lparr>raw_text = Some t, raw_content = None, raw_score = Some v, raw_rank = None\<rparr>"

definition demo_env :: "demo_model env" where
  "demo_env =
     \<lparr>os_exists = (\<lambda>p. p = py ''a'' \<or> p = py ''b'' \<or> p = py ''c''),
      os_isdir = (\<lambda>p. False),
      os_listdir = (\<lambda>p. Inr []),
      os_abspath = (\<lambda>p. p),
      os_basename = (\<lambda>p. p),
      os_relpath = (\<lambda>p. p),
      os_join = join_with (py ''/''),
      read_jsonl = (\<lambda>p. Inr []),
      read_chunks_metadata = (\<lambda>p. Inr (\<lambda>i. None)),
      write_chunks_metadata = (\<lambda>p cs. Inr ()),
      build_colbert_index = (\<lambda>n ts. Inr ()),
      from_index =
        (\<lambda>p. if p = py ''a'' then Inr ModelA else if p = py ''c'' then Inr ModelC
              else Inl (py ''corrupt index'')),
      model_search =
        (\<lambda>m q k.
           if q = py '' '' then Inl (py ''warm-up failed'')
           else if q = py ''nothing'' then Inr []
           else if m = ModelA
           then Inr [scored (py ''alpha'') (Num (1 / 2)), RawStr (py ''beta'')]
           else if q = py ''boom'' then Inl (py ''shard down'')
           else Inr [scored (py ''gamma'') (Num (9 / 10))]),
      ollama_alive = True,
      ollama_post = (\<lambda>p. Inr (Some (py ''ok''))),
      float_of_int = (\<lambda>i. Inr (Num (real_of_int i))),
      sort_with_nan = (\<lambda>hs. hs)\<rparr>"

definition demo_rag :: "path list \<Rightarrow> demo_model rag" where
  "demo_rag paths = new_rag (py ''a'') (Some paths) 500 100 None"

text \<open>
  Two example states with the shards \<open>a\<close> and \<open>c\<close> loaded, the second with a compressor
  that filters every document out, and the hits of the query \<open>q\<close>.
\<close>

definition demo_loaded :: "demo_model rag" where
  "demo_loaded =
     (demo_rag [py ''a'', py ''c''])
       \<lparr>index_loaded := True, shard_models := [(py ''a'', ModelA), (py ''c'', ModelC)]\<rparr>"

definition demo_hits :: "hit list" where
  "demo_hits =
     [\<lparr>hit_chunk_id = py ''1'', hit_text = py ''beta'', hit_score = Num 1, hit_title = [],
       hit_source_url = [], hit_metadata = [], hit_index_path = py ''a''\<rparr>,
      \<lparr>hit_chunk_id = py ''0'', hit_text = py ''gamma'', hit_score = Num (9 / 10),
       hit_title = [], hit_source_url = [], hit_metadata = [], hit_index_path = py ''c''\<rparr>]"

definition demo_all_hits :: "hit list" where
  "demo_all_hits =
     [\<lparr>hit_chunk_id = py ''0'', hit_text = py ''alpha'', hit_score = Num (1 / 2),
       hit_title = [], hit_source_url = [], hit_metadata = [], hit_index_path = py ''a''\<rparr>,
      \<lparr>hit_chunk_id = py ''1'', hit_text = py ''beta'', hit_score = Num 1, hit_title = [],
       hit_source_url = [], hit_metadata = [], hit_index_path = py ''a''\<rparr>,
      \<lparr>hit_chunk_id = py ''0'', hit_text = py ''gamma'', hit_score = Num (9 / 10),
       hit_title = [], hit_source_url = [], hit_metadata = [], hit_index_path = py ''c''\<rparr>]"

definition demo_compressing :: "demo_model rag" where
  "demo_compressing =
     demo_loaded\<lparr>use_compression := True, compressor := Some (\<lambda>documents query. Inr [])\<rparr>"





text \<open>
  An environment where \<open>.ragatouille/colbert/indexes/d/x\<close> exists and is not a
  directory, and nothing else exists.
\<close>

definition file_env :: "demo_model env" where
  "file_env =
     demo_env
       \<lparr>os_exists := (\<lambda>p. p = py ''.ragatouille/colbert/indexes/d/x''),
        os_basename := (\<lambda>p. if p = py ''d/x'' then py ''x'' else p),
        os_listdir := (\<lambda>p. Inl (py ''NotADirectoryError''))\<rparr>"

text \<open>A new object for the base path \<open>d/x\<close>.\<close>

definition file_rag :: "demo_model rag" where
  "file_rag = new_rag (py ''d/x'') None 500 100 None"

section \<open>Properties of the chunker\<close>

lemma py_simps: "py [] = []" "py (c # cs) = of_char c # py cs"
  by (simp_all add: py_def)

lemma str_nat_digit: "n < 10 \<Longrightarrow> str_nat n = [48 + n]"
  by (simp add: str_nat.simps)

subsection \<open>The texts that survive the filter\<close>

lemma paragraph_loop_text:
  "map text_field (paragraph_loop cfg doc i n j ts chunks) =
   map text_field chunks @ filter (keeps cfg) ts"
  by (induction ts arbitrary: j chunks) (simp_all add: keeps_def paragraph_chunk_def)

lemma document_loop_text:
  "map text_field (document_loop cfg doc i ps chunks) =
   map text_field chunks @ filter (keeps cfg) (concat (map (split_paragraph cfg) ps))"
  by (induction ps arbitrary: i chunks) (simp_all add: paragraph_loop_text Let_def)

lemma plain_loop_text:
  "map text_field (plain_loop cfg doc j ts chunks) =
   map text_field chunks @ filter (keeps cfg) ts"
  by (induction ts arbitrary: j chunks) (simp_all add: keeps_def plain_chunk_def)

lemma chunk_document_text:
  "map text_field (chunk_document cfg doc) = filter (keeps cfg) (candidate_chunks cfg doc)"
  by (simp add: chunk_document_def candidate_chunks_def Let_def document_loop_text plain_loop_text)

lemma example_paragraphs:
  "split_into_paragraphs example_text =
   [py ''Para one sentence. Para one second sentence.'', py ''Para two.'']"
  by (simp add: example_text_def split_into_paragraphs_def py_simps is_space_def strip_def)

lemma example_sizes:
  "estimate_tokens (py ''Para one sentence. Para one second sentence.'') = 11"
  "estimate_tokens (py ''Para two.'') = 2"
  by (simp_all add: estimate_tokens_def py_simps)

lemma example_text_read:
  "get_or (doc_text example_doc) [] = example_text" "example_text \<noteq> []"
  by (simp_all add: example_doc_def get_or_def example_text_def py_simps)

text \<open>
  C3. Every chunk that \<open>chunk_document\<close> returns has an estimated token size (length
  divided by four, rounded down) of at least \<open>min_chunk_size\<close>, and the returned texts
  are exactly the candidate texts that pass the test, in order: a candidate below the
  minimum is left out and no text is merged into another, at the end of the document as
  anywhere else.
\<close>

theorem C3_chunks_at_least_min_size:
  "(\<forall>c \<in> set (chunk_document cfg doc).
      min_chunk_size cfg \<le> int (estimate_tokens (text_field c))) \<and>
   map text_field (chunk_document cfg doc) =
     filter (\<lambda>t. min_chunk_size cfg \<le> int (estimate_tokens t)) (candidate_chunks cfg doc)"
proof -
  have eq: "map text_field (chunk_document cfg doc) = filter (keeps cfg) (candidate_chunks cfg doc)"
    by (rule chunk_document_text)
  have "\<forall>t \<in> set (map text_field (chunk_document cfg doc)). keeps cfg t"
    unfolding eq by simp
  then have "\<forall>c \<in> set (chunk_document cfg doc). keeps cfg (text_field c)" by simp
  moreover have "keeps cfg = (\<lambda>t. min_chunk_size cfg \<le> int (estimate_tokens t))"
    by (auto simp: keeps_def fun_eq_iff)
  ultimately show ?thesis using eq by simp
qed

theorem C3_chunks_at_least_min_size_witness:
  "candidate_chunks min3_chunker example_doc =
     [py ''Para one sentence. Para one second sentence.'', py ''Para two.''] \<and>
   map text_field (chunk_document min3_chunker example_doc) =
     [py ''Para one sentence. Para one second sentence.''] \<and>
   min_chunk_size min3_chunker \<le>
     int (estimate_tokens (py ''Para one sentence. Para one second sentence.'')) \<and>
   int (estimate_tokens (py ''Para two.'')) < min_chunk_size min3_chunker"
proof -
  have c: "candidate_chunks min3_chunker example_doc =
     [py ''Para one sentence. Para one second sentence.'', py ''Para two.'']"
    by (simp add: candidate_chunks_def example_text_read example_paragraphs split_paragraph_def
        example_sizes min3_chunker_def)
  note t = C3_chunks_at_least_min_size [of min3_chunker example_doc]
  have "map text_field (chunk_document min3_chunker example_doc) =
     [py ''Para one sentence. Para one second sentence.'']"
    using t unfolding c by (simp add: example_sizes min3_chunker_def)
  then show ?thesis using c by (simp add: example_sizes min3_chunker_def)
qed

subsection \<open>Chunk indices in paragraph mode\<close>

lemma paragraph_loop_index:
  "map chunk_index chunks = [0..<length chunks] \<Longrightarrow>
   map chunk_index (paragraph_loop cfg doc i n j ts chunks) =
     [0..<length (paragraph_loop cfg doc i n j ts chunks)]"
  by (induction ts arbitrary: j chunks) (simp_all add: paragraph_chunk_def)

lemma document_loop_index:
  "map chunk_index chunks = [0..<length chunks] \<Longrightarrow>
   map chunk_index (document_loop cfg doc i ps chunks) =
     [0..<length (document_loop cfg doc i ps chunks)]"
  by (induction ps arbitrary: i chunks) (simp_all add: paragraph_loop_index Let_def)

text \<open>
  C4. In paragraph mode the \<open>chunk_index\<close> fields of the returned list are
  \<open>0, 1, 2, \<dots>\<close> in output order, whatever was dropped.
\<close>

theorem C4_paragraph_mode_indices_contiguous:
  "respect_paragraphs cfg \<Longrightarrow>
   map chunk_index (chunk_document cfg doc) = [0..<length (chunk_document cfg doc)]"
  by (simp add: chunk_document_def Let_def document_loop_index)

lemma gap_paragraphs:
  "split_into_paragraphs gap_text = [py ''Aaaa bbbb cccc.'', py ''Dd.'', py ''Eeee ffff gggg.'']"
  by (simp add: gap_text_def split_into_paragraphs_def py_simps is_space_def strip_def)

lemma gap_sizes:
  "estimate_tokens (py ''Aaaa bbbb cccc.'') = 3"
  "estimate_tokens (py ''Dd.'') = 0"
  "estimate_tokens (py ''Eeee ffff gggg.'') = 3"
  by (simp_all add: estimate_tokens_def py_simps)

lemma gap_text_read:
  "get_or (doc_text gap_doc) [] = gap_text" "gap_text \<noteq> []"
  by (simp_all add: gap_doc_def get_or_def gap_text_def py_simps)

lemma gap_chunks:
  "chunk_document min3_chunker gap_doc =
     [paragraph_chunk gap_doc 0 0 1 0 (py ''Aaaa bbbb cccc.''),
      paragraph_chunk gap_doc 2 0 1 1 (py ''Eeee ffff gggg.'')]"
  unfolding chunk_document_def gap_text_read Let_def
  by (simp add: gap_text_read gap_paragraphs split_paragraph_def gap_sizes min3_chunker_def
      numeral_2_eq_2)

theorem C4_paragraph_mode_indices_contiguous_witness:
  "respect_paragraphs min3_chunker \<and>
   map chunk_id (chunk_document min3_chunker gap_doc) = [py ''d1_chunk_0_0'', py ''d1_chunk_2_0''] \<and>
   map chunk_index (chunk_document min3_chunker gap_doc) = [0, 1]"
proof -
  have r: "respect_paragraphs min3_chunker" by (simp add: min3_chunker_def)
  have l: "length (chunk_document min3_chunker gap_doc) = 2" by (simp add: gap_chunks)
  have "map chunk_index (chunk_document min3_chunker gap_doc) = [0..<2]"
    using C4_paragraph_mode_indices_contiguous [OF r, of gap_doc] unfolding l .
  moreover have "[0..<2] = [0, Suc 0]" by (simp add: upt_conv_Cons)
  moreover have "map chunk_id (chunk_document min3_chunker gap_doc) =
      [py ''d1_chunk_0_0'', py ''d1_chunk_2_0'']"
    unfolding gap_chunks by (simp add: paragraph_chunk_def gap_doc_def str_nat_digit py_simps)
  ultimately show ?thesis using r by simp
qed

subsection \<open>Chunk indices without paragraphs\<close>

lemma zip_upt_nth: "zip [0..<length ts] ts = map (\<lambda>k. (k, ts ! k)) [0..<length ts]"
proof -
  have "zip [0..<length ts] ts = zip [0..<length ts] (map ((!) ts) [0..<length ts])"
    by (simp add: map_nth)
  also have "\<dots> = map (\<lambda>k. (k, ts ! k)) [0..<length ts]"
    by (simp only: zip_map2 zip_same_conv_map) simp
  finally show ?thesis .
qed

lemma plain_loop_eq:
  "plain_loop cfg doc j ts chunks =
   chunks @ map (\<lambda>(k, t). plain_chunk doc k t)
              (filter (\<lambda>(k, t). keeps cfg t) (zip [j..<j + length ts] ts))"
proof (induction ts arbitrary: j chunks)
  case Nil
  then show ?case by simp
next
  case (Cons t ts)
  have "j < j + length (t # ts)" by simp
  then have "[j..<j + length (t # ts)] = j # [Suc j..<j + length (t # ts)]"
    by (rule upt_conv_Cons)
  then have u: "[j..<j + length (t # ts)] = j # [Suc j..<Suc j + length ts]" by simp
  have z: "zip [j..<j + length (t # ts)] (t # ts) = (j, t) # zip [Suc j..<Suc j + length ts] ts"
    unfolding u by simp
  show ?case unfolding z by (simp add: Cons keeps_def)
qed

lemma plain_loop_nth:
  "plain_loop cfg doc 0 ts [] =
     map (\<lambda>k. plain_chunk doc k (ts ! k)) (filter (\<lambda>k. keeps cfg (ts ! k)) [0..<length ts])"
proof -
  have "plain_loop cfg doc 0 ts [] =
        map (\<lambda>(k, t). plain_chunk doc k t)
          (filter (\<lambda>(k, t). keeps cfg t) (map (\<lambda>k. (k, ts ! k)) [0..<length ts]))"
    using plain_loop_eq [of cfg doc 0 ts "[]"] by (simp add: zip_upt_nth)
  then show ?thesis by (simp add: filter_map o_def)
qed

lemma chunk_document_plain:
  assumes "\<not> respect_paragraphs cfg"
  shows "chunk_document cfg doc =
     map (\<lambda>k. plain_chunk doc k (candidate_chunks cfg doc ! k))
       (filter (\<lambda>k. keeps cfg (candidate_chunks cfg doc ! k))
          [0..<length (candidate_chunks cfg doc)])"
  using assms by (simp add: chunk_document_def candidate_chunks_def Let_def plain_loop_nth)

lemma filter_upt_gap:
  assumes "i < j" "j < n" "\<not> Q i" "Q j"
  shows "filter Q [0..<n] \<noteq> [0..<length (filter Q [0..<n])]"
proof
  assume eq: "filter Q [0..<n] = [0..<length (filter Q [0..<n])]"
  have "j \<in> set (filter Q [0..<n])" using assms by simp
  then have "j \<in> set [0..<length (filter Q [0..<n])]" using eq by simp
  then have "i \<in> set [0..<length (filter Q [0..<n])]" using assms(1) by simp
  then have "i \<in> set (filter Q [0..<n])" using eq by simp
  then show False using assms(3) by simp
qed

text \<open>
  C10 (amended). Without paragraphs, a returned chunk carries as \<open>chunk_index\<close> its
  position in the output of \<open>_split_paragraph\<close> before the filter, its text is the
  candidate at that position and its \<open>chunk_id\<close> is \<open>{id}_chunk_{position}\<close>. The indices
  of the returned list are the positions of the kept candidates, in increasing order;
  they are not \<open>0, 1, 2, \<dots>\<close> whenever a dropped candidate comes before a kept one.
\<close>

theorem C10_plain_mode_indices_are_positions:
  assumes "\<not> respect_paragraphs cfg"
  shows "(\<forall>c \<in> set (chunk_document cfg doc).
            chunk_index c < length (candidate_chunks cfg doc) \<and>
            text_field c = candidate_chunks cfg doc ! chunk_index c \<and>
            chunk_id c = doc_id doc @ py ''_chunk_'' @ str_nat (chunk_index c)) \<and>
         map chunk_index (chunk_document cfg doc) =
           filter (\<lambda>k. keeps cfg (candidate_chunks cfg doc ! k))
             [0..<length (candidate_chunks cfg doc)] \<and>
         sorted_wrt (<) (map chunk_index (chunk_document cfg doc)) \<and>
         (\<forall>i j. i < j \<and> j < length (candidate_chunks cfg doc) \<and>
                \<not> keeps cfg (candidate_chunks cfg doc ! i) \<and>
                keeps cfg (candidate_chunks cfg doc ! j) \<longrightarrow>
            map chunk_index (chunk_document cfg doc) \<noteq> [0..<length (chunk_document cfg doc)])"
proof -
  let ?cs = "candidate_chunks cfg doc"
  let ?ks = "filter (\<lambda>k. keeps cfg (?cs ! k)) [0..<length ?cs]"
  have r: "chunk_document cfg doc = map (\<lambda>k. plain_chunk doc k (?cs ! k)) ?ks"
    using assms by (rule chunk_document_plain)
  have a: "\<forall>c \<in> set (chunk_document cfg doc).
            chunk_index c < length ?cs \<and> text_field c = ?cs ! chunk_index c \<and>
            chunk_id c = doc_id doc @ py ''_chunk_'' @ str_nat (chunk_index c)"
    unfolding r by (auto simp: plain_chunk_def)
  have b: "map chunk_index (chunk_document cfg doc) = ?ks"
    unfolding r by (simp add: o_def plain_chunk_def)
  have c: "sorted_wrt (<) (map chunk_index (chunk_document cfg doc))"
    unfolding b by (rule sorted_wrt_filter) simp
  have l: "length (chunk_document cfg doc) = length ?ks"
    unfolding r by simp
  have d: "\<forall>i j. i < j \<and> j < length ?cs \<and> \<not> keeps cfg (?cs ! i) \<and> keeps cfg (?cs ! j) \<longrightarrow>
            map chunk_index (chunk_document cfg doc) \<noteq> [0..<length (chunk_document cfg doc)]"
    unfolding b l using filter_upt_gap [of _ _ "length ?cs" "\<lambda>k. keeps cfg (?cs ! k)"] by blast
  show ?thesis using a b c d by blast
qed


lemma plain_candidates_two:
  "candidate_chunks plain_chunker (plain_doc (py ''aaaaaaa bb'')) = [py ''aaaaaaa'', py ''bb'']"
  by (simp add: candidate_chunks_def plain_doc_def get_or_def plain_chunker_def py_simps
      split_paragraph_def estimate_tokens_def split_ws_def is_space_def word_size_def)

lemma plain_candidates_three:
  "candidate_chunks plain_chunker (plain_doc (py ''aaaaaaa bb ccccccc'')) =
     [py ''aaaaaaa'', py ''bb'', py ''ccccccc'']"
  by (simp add: candidate_chunks_def plain_doc_def get_or_def plain_chunker_def py_simps
      split_paragraph_def estimate_tokens_def split_ws_def is_space_def word_size_def)

text \<open>
  The claim as stated fails when only the last candidate is dropped: the indices of the
  returned list are then still \<open>0, 1, 2, \<dots>\<close>.
\<close>

theorem C10_trailing_drop_counterexample:
  "\<not> respect_paragraphs plain_chunker \<and>
   candidate_chunks plain_chunker (plain_doc (py ''aaaaaaa bb'')) = [py ''aaaaaaa'', py ''bb''] \<and>
   int (estimate_tokens (py ''bb'')) < min_chunk_size plain_chunker \<and>
   map chunk_index (chunk_document plain_chunker (plain_doc (py ''aaaaaaa bb''))) = [0] \<and>
   length (chunk_document plain_chunker (plain_doc (py ''aaaaaaa bb''))) = 1"
proof -
  have r: "\<not> respect_paragraphs plain_chunker" by (simp add: plain_chunker_def)
  have k: "keeps plain_chunker (py ''aaaaaaa'')" "\<not> keeps plain_chunker (py ''bb'')"
    by (simp_all add: keeps_def plain_chunker_def estimate_tokens_def py_simps)
  have "chunk_document plain_chunker (plain_doc (py ''aaaaaaa bb'')) =
        [plain_chunk (plain_doc (py ''aaaaaaa bb'')) 0 (py ''aaaaaaa'')]"
    unfolding chunk_document_plain [OF r] plain_candidates_two
    using k by (simp add: upt_conv_Cons)
  then show ?thesis using r k(2)
    by (simp add: plain_candidates_two plain_chunk_def keeps_def)
qed

theorem C10_plain_mode_indices_are_positions_witness:
  "\<not> respect_paragraphs plain_chunker \<and>
   candidate_chunks plain_chunker (plain_doc (py ''aaaaaaa bb ccccccc'')) =
     [py ''aaaaaaa'', py ''bb'', py ''ccccccc''] \<and>
   map chunk_index (chunk_document plain_chunker (plain_doc (py ''aaaaaaa bb ccccccc''))) = [0, 2] \<and>
   map chunk_index (chunk_document plain_chunker (plain_doc (py ''aaaaaaa bb ccccccc''))) \<noteq>
     [0..<length (chunk_document plain_chunker (plain_doc (py ''aaaaaaa bb ccccccc'')))]"
proof -
  let ?d = "plain_doc (py ''aaaaaaa bb ccccccc'')"
  have r: "\<not> respect_paragraphs plain_chunker" by (simp add: plain_chunker_def)
  have k: "keeps plain_chunker (py ''aaaaaaa'')" "\<not> keeps plain_chunker (py ''bb'')"
     "keeps plain_chunker (py ''ccccccc'')"
    by (simp_all add: keeps_def plain_chunker_def estimate_tokens_def py_simps)
  note t = C10_plain_mode_indices_are_positions [OF r, of ?d]
  have u: "[0..<3] = [0, 1, 2]" by (simp add: upt_conv_Cons)
  have i: "map chunk_index (chunk_document plain_chunker ?d) = [0, 2]"
    using t k unfolding plain_candidates_three by (simp add: u)
  have g: "map chunk_index (chunk_document plain_chunker ?d) \<noteq>
           [0..<length (chunk_document plain_chunker ?d)]"
  proof -
    have "(1::nat) < 2 \<and> 2 < length (candidate_chunks plain_chunker ?d) \<and>
          \<not> keeps plain_chunker (candidate_chunks plain_chunker ?d ! 1) \<and>
          keeps plain_chunker (candidate_chunks plain_chunker ?d ! 2)"
      using k by (simp add: plain_candidates_three)
    then show ?thesis using t by blast
  qed
  show ?thesis using r i g plain_candidates_three by simp
qed

subsection \<open>The two-paragraph example\<close>

text \<open>
  C9 (amended). For the document with id \<open>d1\<close> and text
  \<open>Para one sentence. Para one second sentence.\n\nPara two.\<close>, a chunker in paragraph mode
  with \<open>chunk_size\<close> at least 11 and \<open>min_chunk_size\<close> at most 2 returns exactly two chunks,
  one per paragraph, with the ids \<open>d1_chunk_0_0\<close> and \<open>d1_chunk_1_0\<close>.
\<close>

theorem C9_two_paragraph_example:
  assumes "respect_paragraphs cfg" "11 \<le> chunk_size cfg" "min_chunk_size cfg \<le> 2"
  shows "map chunk_id (chunk_document cfg example_doc) =
           [py ''d1_chunk_0_0'', py ''d1_chunk_1_0''] \<and>
         map text_field (chunk_document cfg example_doc) =
           [py ''Para one sentence. Para one second sentence.'', py ''Para two.'']"
proof -
  have p1: "split_paragraph cfg (py ''Para one sentence. Para one second sentence.'') =
            [py ''Para one sentence. Para one second sentence.'']"
    using assms(2) by (simp add: split_paragraph_def example_sizes)
  have p2: "split_paragraph cfg (py ''Para two.'') = [py ''Para two.'']"
    using assms(2) by (simp add: split_paragraph_def example_sizes)
  have "chunk_document cfg example_doc =
        [paragraph_chunk example_doc 0 0 1 0 (py ''Para one sentence. Para one second sentence.''),
         paragraph_chunk example_doc 1 0 1 1 (py ''Para two.'')]"
    unfolding chunk_document_def example_text_read Let_def
    using assms(1,3) by (simp add: example_text_read example_paragraphs p1 p2 example_sizes)
  then show ?thesis
    by (simp add: paragraph_chunk_def example_doc_def str_nat_digit py_simps)
qed

theorem C9_two_paragraph_example_witness:
  "respect_paragraphs min2_chunker \<and> 11 \<le> chunk_size min2_chunker \<and>
   min_chunk_size min2_chunker \<le> 2 \<and>
   map chunk_id (chunk_document min2_chunker example_doc) =
     [py ''d1_chunk_0_0'', py ''d1_chunk_1_0'']"
proof -
  have h: "respect_paragraphs min2_chunker" "11 \<le> chunk_size min2_chunker"
    "min_chunk_size min2_chunker \<le> 2"
    by (simp_all add: min2_chunker_def)
  show ?thesis using h C9_two_paragraph_example [OF h] by blast
qed

text \<open>
  With the defaults of the chunker (\<open>chunk_size\<close> 900, \<open>min_chunk_size\<close> 150) both
  paragraphs are below the minimum and nothing is returned.
\<close>

theorem C9_default_chunker_counterexample:
  "chunk_size default_chunker = 900 \<and> chunk_document default_chunker example_doc = []"
proof -
  have p1: "split_paragraph default_chunker (py ''Para one sentence. Para one second sentence.'') =
            [py ''Para one sentence. Para one second sentence.'']"
    by (simp add: split_paragraph_def example_sizes default_chunker_def)
  have p2: "split_paragraph default_chunker (py ''Para two.'') = [py ''Para two.'']"
    by (simp add: split_paragraph_def example_sizes default_chunker_def)
  have m: "min_chunk_size default_chunker = 150" "respect_paragraphs default_chunker"
    "chunk_size default_chunker = 900"
    by (simp_all add: default_chunker_def)
  have "chunk_document default_chunker example_doc = []"
    unfolding chunk_document_def example_text_read Let_def
    by (simp add: example_text_read example_paragraphs p1 p2 example_sizes m)
  then show ?thesis using m by simp
qed

subsection \<open>Overlap between the chunks of a paragraph\<close>

lemma last_units_drop: "last_units n xs = drop (length xs - n) xs"
  by (simp add: last_units_def min_def)

lemma pack_sentences_buffers:
  "pack_sentences cfg ss (map join_sp bs) cur sz = map join_sp (sentence_buffers cfg ss bs cur sz)"
proof (induction ss arbitrary: bs cur sz)
  case Nil
  then show ?case by simp
next
  case (Cons s ss)
  have ih: "pack_sentences cfg ss (map join_sp bs @ [join_sp b]) c z =
            map join_sp (sentence_buffers cfg ss (bs @ [b]) c z)" for b c z
    using Cons.IH [of "bs @ [b]" c z] by simp
  show ?case by (simp add: Let_def ih Cons.IH)
qed

lemma pack_words_buffers:
  "pack_words cfg ws (map join_sp bs) cur sz = map join_sp (word_buffers cfg ws bs cur sz)"
proof (induction ws arbitrary: bs cur sz)
  case Nil
  then show ?case by simp
next
  case (Cons w ws)
  have ih: "pack_words cfg ws (map join_sp bs @ [join_sp b]) c z =
            map join_sp (word_buffers cfg ws (bs @ [b]) c z)" for b c z
    using Cons.IH [of "bs @ [b]" c z] by simp
  show ?case by (simp add: Let_def ih Cons.IH)
qed

lemma seeded_snoc: "seeded f l n b c \<Longrightarrow> seeded f l n b (c @ [s])"
  by (auto simp: seeded_def)

lemma seeded_flush:
  "int (sum_list (map f b) + f s) > l \<Longrightarrow> seeded f l n b (last_units n b @ [s])"
  by (auto simp: seeded_def)

lemma sentence_buffers_seeded:
  assumes "chunk_overlap cfg > 0"
    and "successively (seeded estimate_tokens (chunk_size cfg) 2) bs"
    and "bs \<noteq> [] \<longrightarrow> seeded estimate_tokens (chunk_size cfg) 2 (last bs) cur"
    and "sz = sum_list (map estimate_tokens cur)"
  shows "successively (seeded estimate_tokens (chunk_size cfg) 2)
           (sentence_buffers cfg ss bs cur sz)"
  using assms(2-)
proof (induction ss arbitrary: bs cur sz)
  case Nil
  then show ?case by (auto simp: successively_append_iff)
next
  case (Cons s ss)
  let ?P = "seeded estimate_tokens (chunk_size cfg) 2"
  show ?case
  proof (cases "int (sz + estimate_tokens s) > chunk_size cfg \<and> cur \<noteq> []")
    case True
    have ov: "(if length cur \<ge> 2 then drop (length cur - 2) cur else cur) = last_units 2 cur"
      by (simp add: last_units_drop)
    have s1: "successively ?P (bs @ [cur])"
      using Cons.prems by (auto simp: successively_append_iff)
    have s2: "?P cur (last_units 2 cur @ [s])"
      using True Cons.prems(3) by (intro seeded_flush) simp
    have "successively ?P
            (sentence_buffers cfg ss (bs @ [cur]) (last_units 2 cur @ [s])
               (sum_list (map estimate_tokens (last_units 2 cur @ [s]))))"
      by (rule Cons.IH) (use s1 s2 in simp_all)
    then show ?thesis using True assms(1) by (simp add: Let_def ov)
  next
    case False
    have "successively ?P (sentence_buffers cfg ss bs (cur @ [s]) (sz + estimate_tokens s))"
      by (rule Cons.IH) (use Cons.prems in \<open>auto intro: seeded_snoc\<close>)
    then show ?thesis using False by (auto simp: Let_def)
  qed
qed


lemma word_buffers_seeded:
  assumes "chunk_overlap cfg > 0"
    and "successively (seeded word_size (chunk_size cfg) (nat (chunk_overlap cfg))) bs"
    and "bs \<noteq> [] \<longrightarrow> seeded word_size (chunk_size cfg) (nat (chunk_overlap cfg)) (last bs) cur"
    and "sz = sum_list (map word_size cur)"
  shows "successively (seeded word_size (chunk_size cfg) (nat (chunk_overlap cfg)))
           (word_buffers cfg ws bs cur sz)"
  using assms(2-)
proof (induction ws arbitrary: bs cur sz)
  case Nil
  then show ?case by (auto simp: successively_append_iff)
next
  case (Cons w ws)
  let ?n = "nat (chunk_overlap cfg)"
  let ?P = "seeded word_size (chunk_size cfg) ?n"
  show ?case
  proof (cases "int (sz + word_size w) > chunk_size cfg \<and> cur \<noteq> []")
    case True
    have ov: "(if int (length cur) \<ge> chunk_overlap cfg
               then drop (length cur - nat (chunk_overlap cfg)) cur else cur) = last_units ?n cur"
      using assms(1) by (auto simp: last_units_drop)
    have s1: "successively ?P (bs @ [cur])"
      using Cons.prems by (auto simp: successively_append_iff)
    have s2: "?P cur (last_units ?n cur @ [w])"
      using True Cons.prems(3) by (intro seeded_flush) simp
    have "successively ?P
            (word_buffers cfg ws (bs @ [cur]) (last_units ?n cur @ [w])
               (sum_list (map word_size (last_units ?n cur @ [w]))))"
      by (rule Cons.IH) (use s1 s2 in simp_all)
    then show ?thesis using True assms(1) by (simp add: Let_def ov)
  next
    case False
    have "successively ?P (word_buffers cfg ws bs (cur @ [w]) (sz + word_size w))"
      by (rule Cons.IH) (use Cons.prems in \<open>auto intro: seeded_snoc\<close>)
    then show ?thesis using False by (auto simp: Let_def)
  qed
qed


text \<open>
  C5. When \<open>chunk_overlap\<close> is positive and a paragraph is too large for one chunk, its
  chunks are the flushed buffers joined with spaces, and each buffer after the first
  starts with the overlap taken from the buffer before it, then the unit that caused
  the flush: in sentence mode the overlap is the last two sentences (one when the buffer
  held one), whatever the value of \<open>chunk_overlap\<close>; in word mode it is the last
  \<open>min chunk_overlap (number of buffered words)\<close> words.
\<close>

theorem C5_overlap_seeds_next_chunk:
  assumes "chunk_overlap cfg > 0" and "int (estimate_tokens paragraph) > chunk_size cfg"
  shows "(respect_sentences cfg \<longrightarrow>
            split_paragraph cfg paragraph =
              map join_sp (sentence_buffers cfg (split_into_sentences paragraph) [] [] 0) \<and>
            successively (seeded estimate_tokens (chunk_size cfg) 2)
              (sentence_buffers cfg (split_into_sentences paragraph) [] [] 0)) \<and>
         (\<not> respect_sentences cfg \<longrightarrow>
            split_paragraph cfg paragraph =
              map join_sp (word_buffers cfg (split_ws paragraph) [] [] 0) \<and>
            successively (seeded word_size (chunk_size cfg) (nat (chunk_overlap cfg)))
              (word_buffers cfg (split_ws paragraph) [] [] 0))"
proof -
  have a: "pack_sentences cfg ss [] [] 0 = map join_sp (sentence_buffers cfg ss [] [] 0)" for ss
    using pack_sentences_buffers [of cfg ss "[]" "[]" 0] by simp
  have b: "pack_words cfg ws [] [] 0 = map join_sp (word_buffers cfg ws [] [] 0)" for ws
    using pack_words_buffers [of cfg ws "[]" "[]" 0] by simp
  have c: "successively (seeded estimate_tokens (chunk_size cfg) 2)
             (sentence_buffers cfg ss [] [] 0)" for ss
    by (rule sentence_buffers_seeded) (use assms(1) in simp_all)
  have d: "successively (seeded word_size (chunk_size cfg) (nat (chunk_overlap cfg)))
             (word_buffers cfg ws [] [] 0)" for ws
    by (rule word_buffers_seeded) (use assms(1) in simp_all)
  show ?thesis using assms(2) by (simp add: split_paragraph_def a b c d)
qed


lemma four_sentences:
  "split_into_sentences (py ''Aaaa. Bbbb. Cccc. Dddd.'') =
     [py ''Aaaa.'', py ''Bbbb.'', py ''Cccc.'', py ''Dddd.'']"
  by (simp add: split_into_sentences_def py_simps is_space_def is_upper_def is_terminator_def
      strip_def)

lemma three_words:
  "split_ws (py ''aaaaaaa bb ccccccc'') = [py ''aaaaaaa'', py ''bb'', py ''ccccccc'']"
  by (simp add: split_ws_def py_simps is_space_def)

theorem C5_overlap_seeds_next_chunk_witness:
  "chunk_overlap overlap_sentences_chunker > 0 \<and>
   int (estimate_tokens (py ''Aaaa. Bbbb. Cccc. Dddd.'')) > chunk_size overlap_sentences_chunker \<and>
   split_paragraph overlap_sentences_chunker (py ''Aaaa. Bbbb. Cccc. Dddd.'') =
     [py ''Aaaa.'', py ''Aaaa. Bbbb.'', py ''Aaaa. Bbbb. Cccc.'', py ''Bbbb. Cccc. Dddd.''] \<and>
   chunk_overlap overlap_words_chunker > 0 \<and>
   int (estimate_tokens (py ''aaaaaaa bb ccccccc'')) > chunk_size overlap_words_chunker \<and>
   split_paragraph overlap_words_chunker (py ''aaaaaaa bb ccccccc'') =
     [py ''aaaaaaa'', py ''aaaaaaa bb'', py ''bb ccccccc'']"
proof -
  have hs: "chunk_overlap overlap_sentences_chunker > 0"
    "int (estimate_tokens (py ''Aaaa. Bbbb. Cccc. Dddd.'')) > chunk_size overlap_sentences_chunker"
    by (simp_all add: overlap_sentences_chunker_def estimate_tokens_def py_simps)
  have hw: "chunk_overlap overlap_words_chunker > 0"
    "int (estimate_tokens (py ''aaaaaaa bb ccccccc'')) > chunk_size overlap_words_chunker"
    by (simp_all add: overlap_words_chunker_def estimate_tokens_def py_simps)
  have bs: "sentence_buffers overlap_sentences_chunker
              [py ''Aaaa.'', py ''Bbbb.'', py ''Cccc.'', py ''Dddd.''] [] [] 0 =
            [[py ''Aaaa.''], [py ''Aaaa.'', py ''Bbbb.''],
             [py ''Aaaa.'', py ''Bbbb.'', py ''Cccc.''],
             [py ''Bbbb.'', py ''Cccc.'', py ''Dddd.'']]"
    by (simp add: overlap_sentences_chunker_def estimate_tokens_def py_simps)
  have bw: "word_buffers overlap_words_chunker [py ''aaaaaaa'', py ''bb'', py ''ccccccc''] [] [] 0 =
            [[py ''aaaaaaa''], [py ''aaaaaaa'', py ''bb''], [py ''bb'', py ''ccccccc'']]"
    by (simp add: overlap_words_chunker_def estimate_tokens_def word_size_def py_simps)
  have rs: "respect_sentences overlap_sentences_chunker" "\<not> respect_sentences overlap_words_chunker"
    by (simp_all add: overlap_sentences_chunker_def overlap_words_chunker_def)
  have "split_paragraph overlap_sentences_chunker (py ''Aaaa. Bbbb. Cccc. Dddd.'') =
        map join_sp (sentence_buffers overlap_sentences_chunker
          (split_into_sentences (py ''Aaaa. Bbbb. Cccc. Dddd.'')) [] [] 0)"
    using C5_overlap_seeds_next_chunk [OF hs] rs by blast
  then have s: "split_paragraph overlap_sentences_chunker (py ''Aaaa. Bbbb. Cccc. Dddd.'') =
     [py ''Aaaa.'', py ''Aaaa. Bbbb.'', py ''Aaaa. Bbbb. Cccc.'', py ''Bbbb. Cccc. Dddd.'']"
    unfolding four_sentences bs by (simp add: py_simps)
  have "split_paragraph overlap_words_chunker (py ''aaaaaaa bb ccccccc'') =
        map join_sp (word_buffers overlap_words_chunker
          (split_ws (py ''aaaaaaa bb ccccccc'')) [] [] 0)"
    using C5_overlap_seeds_next_chunk [OF hw] rs by blast
  then have w: "split_paragraph overlap_words_chunker (py ''aaaaaaa bb ccccccc'') =
     [py ''aaaaaaa'', py ''aaaaaaa bb'', py ''bb ccccccc'']"
    unfolding three_words bw by (simp add: py_simps)
  show ?thesis using hs hw s w by blast
qed

section \<open>Properties of the retrieval system\<close>

subsection \<open>Loading the shards\<close>

lemma load_loop_skip:
  "resolve e b = None \<Longrightarrow> load_loop e (b # bs) ex st = load_loop e bs ex st"
  by (auto simp: resolve_def split: option.splits if_splits)

lemma load_loop_fail:
  "resolve e b = Some p \<Longrightarrow> from_index e (os_abspath e p) = Inl x \<Longrightarrow>
   load_loop e (b # bs) ex st = (Inl x, st\<lparr>events := events st @ [FromIndex (os_abspath e p)]\<rparr>)"
  by (auto simp: resolve_def log_events_def split: option.splits if_splits)

lemma load_loop_load:
  "resolve e b = Some p \<Longrightarrow> from_index e (os_abspath e p) = Inr m \<Longrightarrow>
   load_loop e (b # bs) ex st =
     load_loop e bs (ex @ [(b, p)])
       (st\<lparr>events := events st @ warm_up_events e p m,
           shard_models := shard_models st @ [(p, m)]\<rparr>)"
  by (auto simp: resolve_def log_events_def warm_up_events_def Let_def
      split: option.splits if_splits sum.splits)

declare load_loop.simps(2) [simp del]

lemma load_loop_outcome:
  "load_loop e bases ex st =
     ((case load_failure e (resolved e bases) of
         Some x \<Rightarrow> Inl x
       | None \<Rightarrow> Inr (ex @ resolved e bases)),
      st\<lparr>events := events st @ load_events e (resolved e bases),
         shard_models := shard_models st @ loaded_shards e (resolved e bases)\<rparr>)"
proof (induction bases arbitrary: ex st)
  case Nil
  then show ?case by simp
next
  case (Cons b bs)
  show ?case
  proof (cases "resolve e b")
    case None
    then have r: "resolved e (b # bs) = resolved e bs" by simp
    show ?thesis unfolding r load_loop_skip [OF None] by (rule Cons.IH)
  next
    case (Some p)
    then have r: "resolved e (b # bs) = (b, p) # resolved e bs" by simp
    show ?thesis
    proof (cases "from_index e (os_abspath e p)")
      case (Inl x)
      show ?thesis unfolding r load_loop_fail [OF Some Inl] using Inl by simp
    next
      case (Inr m)
      show ?thesis
        unfolding r load_loop_load [OF Some Inr] Cons.IH
        using Inr by (cases "load_failure e (resolved e bs)") simp_all
    qed
  qed
qed





lemma auto_discovery_fields:
  "shard_models (snd (auto_discovery e a st)) = shard_models st"
  "index_loaded (snd (auto_discovery e a st)) = index_loaded st"
  by (simp_all add: auto_discovery_def log_events_def split: prod.splits sum.splits)

lemma load_index_discovery_failed:
  "fst (auto_discovery e a st) = Inl x \<Longrightarrow>
   load_index e a st = (Inl (OSError x), snd (auto_discovery e a st))"
  by (cases "auto_discovery e a st") (simp add: load_index_def)

lemma load_index_discovered:
  assumes "fst (auto_discovery e a st) = Inr ()"
  shows "load_index e a st =
     (case load_loop e (candidate_paths e a st) [] (snd (auto_discovery e a st)) of
        (Inl x, st2) \<Rightarrow> (Inl (ProviderError x), st2)
      | (Inr existing, st2) \<Rightarrow>
          if existing = [] then (Inl NoIndexFound, st2)
          else (Inr (), st2\<lparr>index_loaded := True\<rparr>))"
  using assms by (cases "auto_discovery e a st") (simp add: load_index_def candidate_paths_def)

lemma load_index_loaded:
  assumes "fst (auto_discovery e a st) = Inr ()"
  shows "fst (load_index e a st) =
           (case load_failure e (resolved e (candidate_paths e a st)) of
              Some x \<Rightarrow> Inl (ProviderError x)
            | None \<Rightarrow>
                if resolved e (candidate_paths e a st) = [] then Inl NoIndexFound else Inr ())"
    and "shard_models (snd (load_index e a st)) =
           shard_models st @ loaded_shards e (resolved e (candidate_paths e a st))"
    and "events (snd (load_index e a st)) =
           events (snd (auto_discovery e a st)) @
           load_events e (resolved e (candidate_paths e a st))"
    and "index_loaded (snd (load_index e a st)) =
           (index_loaded st \<or>
            load_failure e (resolved e (candidate_paths e a st)) = None \<and>
            resolved e (candidate_paths e a st) \<noteq> [])"
  unfolding load_index_discovered [OF assms] load_loop_outcome
  by (cases "load_failure e (resolved e (candidate_paths e a st))";
      simp add: auto_discovery_fields)+


lemma search_not_loaded: "\<not> index_loaded st \<Longrightarrow> search e st q k = (Inl NotLoaded, st)"
  by (simp add: search_def)

lemma search_keeps_flag: "index_loaded (snd (search e st q k)) = index_loaded st"
  by (simp add: search_def log_events_def split: prod.splits sum.splits)

text \<open>
  C6 (amended). \<open>search\<close> on an object whose \<open>index_loaded\<close> flag is unset fails with
  \<open>NotLoaded\<close>; the flag is unset on a new object, and \<open>search\<close> and a \<open>load_index\<close> that
  fails leave it as it is. \<open>load_index\<close> fails with \<open>NoIndexFound\<close> exactly when its
  discovery step raises nothing and no candidate path resolves.
\<close>

theorem C6_not_loaded_and_no_index_found:
  "index_loaded (new_rag ip ips cs co made :: 'm rag) = False \<and>
   (\<not> index_loaded st \<longrightarrow> search e st q k = (Inl NotLoaded, st)) \<and>
   index_loaded (snd (search e st q k)) = index_loaded st \<and>
   (\<forall>err. fst (load_index e a st) = Inl err \<longrightarrow>
      index_loaded (snd (load_index e a st)) = index_loaded st) \<and>
   (fst (load_index e a st) = Inl NoIndexFound \<longleftrightarrow>
      fst (auto_discovery e a st) = Inr () \<and> resolved e (candidate_paths e a st) = [])"
proof -
  have 1: "index_loaded (new_rag ip ips cs co made :: 'm rag) = False"
    by (simp add: new_rag_def)
  have d: "(\<exists>x. fst (auto_discovery e a st) = Inl x) \<or> fst (auto_discovery e a st) = Inr ()"
    by (cases "fst (auto_discovery e a st)") auto
  have 4: "\<forall>err. fst (load_index e a st) = Inl err \<longrightarrow>
      index_loaded (snd (load_index e a st)) = index_loaded st"
  proof (intro allI impI)
    fix err assume f: "fst (load_index e a st) = Inl err"
    from d show "index_loaded (snd (load_index e a st)) = index_loaded st"
    proof
      assume "\<exists>x. fst (auto_discovery e a st) = Inl x"
      then show ?thesis by (auto simp: load_index_discovery_failed auto_discovery_fields)
    next
      assume ok: "fst (auto_discovery e a st) = Inr ()"
      show ?thesis
        using f unfolding load_index_loaded [OF ok]
        by (auto split: option.splits if_splits)
    qed
  qed
  have 5: "fst (load_index e a st) = Inl NoIndexFound \<longleftrightarrow>
      fst (auto_discovery e a st) = Inr () \<and> resolved e (candidate_paths e a st) = []"
  proof
    assume f: "fst (load_index e a st) = Inl NoIndexFound"
    from d show "fst (auto_discovery e a st) = Inr () \<and> resolved e (candidate_paths e a st) = []"
    proof
      assume "\<exists>x. fst (auto_discovery e a st) = Inl x"
      then show ?thesis using f by (auto simp: load_index_discovery_failed)
    next
      assume ok: "fst (auto_discovery e a st) = Inr ()"
      show ?thesis
        using f ok unfolding load_index_loaded [OF ok]
        by (auto split: option.splits if_splits)
    qed
  next
    assume "fst (auto_discovery e a st) = Inr () \<and> resolved e (candidate_paths e a st) = []"
    then show "fst (load_index e a st) = Inl NoIndexFound"
      by (simp add: load_index_loaded)
  qed
  show ?thesis using 1 4 5 search_not_loaded [of st e q k] search_keeps_flag [of e st q k]
    by blast
qed

subsection \<open>Searching and answering\<close>

lemma search_single_index_events:
  "snd (search_single_index e p m q k) = [ModelSearch p q k]"
  by (simp add: search_single_index_def Let_def split: sum.splits)

lemma search_shards_events:
  "\<exists>n. snd (search_shards e shards q acc) = shard_calls q (take n shards)"
proof (induction shards arbitrary: acc)
  case Nil
  then show ?case by (simp add: shard_calls_def)
next
  case (Cons s shards)
  obtain p m where s: "s = (p, m)" by (cases s)
  obtain r evs where r: "search_single_index e p m q 2 = (r, evs)" by (cases "search_single_index e p m q 2")
  have evs: "evs = [ModelSearch p q 2]" using search_single_index_events [of e p m q 2] r by simp
  show ?case
  proof (cases r)
    case (Inl x)
    then have "snd (search_shards e (s # shards) q acc) = shard_calls q (take 1 (s # shards))"
      using s r evs by (simp add: shard_calls_def)
    then show ?thesis by blast
  next
    case (Inr hs)
    obtain n where "snd (search_shards e shards q (acc @ hs)) = shard_calls q (take n shards)"
      using Cons.IH by blast
    then have "snd (search_shards e (s # shards) q acc) = shard_calls q (take (Suc n) (s # shards))"
      using s r evs Inr by (auto simp: shard_calls_def split: prod.splits)
    then show ?thesis by blast
  qed
qed

lemma search_shards_ok:
  "\<forall>shard \<in> set shards. \<exists>hs. fst (search_single_index e (fst shard) (snd shard) q 2) = Inr hs \<Longrightarrow>
   search_shards e shards q acc =
     (Inr (acc @ concat (map (shard_hits e q) shards)), shard_calls q shards)"
proof (induction shards arbitrary: acc)
  case Nil
  then show ?case by (simp add: shard_calls_def)
next
  case (Cons s shards)
  obtain p m where s: "s = (p, m)" by (cases s)
  obtain hs where hs: "fst (search_single_index e p m q 2) = Inr hs"
    using Cons.prems s by auto
  then have one: "search_single_index e p m q 2 = (Inr hs, [ModelSearch p q 2])"
    using search_single_index_events [of e p m q 2] by (simp add: prod_eq_iff)
  have "\<forall>shard \<in> set shards. \<exists>hs. fst (search_single_index e (fst shard) (snd shard) q 2) = Inr hs"
    using Cons.prems by simp
  from Cons.IH [OF this, of "acc @ hs"] show ?case
    using s one hs by (simp add: shard_calls_def shard_hits_def)
qed


lemma float_key_le:
  "a \<noteq> NaN \<Longrightarrow> b \<noteq> NaN \<Longrightarrow> float_key b \<le> float_key a \<Longrightarrow> float_le b a"
  by (simp add: float_le_def)




lemma log_events_fields:
  "index_loaded (log_events evs st) = index_loaded st"
  "shard_models (log_events evs st) = shard_models st"
  "use_compression (log_events evs st) = use_compression st"
  "compressor (log_events evs st) = compressor st"
  "events (log_events evs st) = events st @ evs"
  by (simp_all add: log_events_def)



lemma search_state:
  "index_loaded st \<Longrightarrow>
   snd (search e st q k) = log_events (snd (search_shards e (shard_models st) q [])) st"
  by (simp add: search_def split: prod.splits sum.splits)

lemma search_result_cong:
  "index_loaded st' = index_loaded st \<Longrightarrow> shard_models st' = shard_models st \<Longrightarrow>
   fst (search e st' q k) = fst (search e st q k)"
  by (simp add: search_def split: prod.splits sum.splits)

lemma search_ok_loaded: "fst (search e st q k) = Inr found \<Longrightarrow> index_loaded st"
  by (rule ccontr) (simp add: search_not_loaded)

text \<open>
  C8. When \<open>search\<close> returns the empty list, \<open>ask\<close> returns the fixed answer with no
  sources and no search results, and none of the events of the call reaches the
  completion provider.
\<close>

theorem C8_empty_search_no_completion:
  assumes "fst (search e st q k) = Inr []"
  shows "ask e st q k = (Inr no_information, snd (search e st q k)) \<and>
         answer_text no_information =
           py ''Sorry, no relevant information found to answer your question.'' \<and>
         sources no_information = [] \<and> search_results no_information = [] \<and>
         (\<forall>ev \<in> set (drop (length (events st)) (events (snd (ask e st q k)))).
            \<not> is_completion_call ev)"
proof -
  obtain st1 where s: "search e st q k = (Inr [], st1)"
    using assms by (cases "search e st q k") simp
  have "ask e st q k = (Inr no_information, st1)"
    by (simp add: ask_def s)
  then have a: "ask e st q k = (Inr no_information, snd (search e st q k))"
    by (simp add: s)
  have l: "index_loaded st" using assms by (rule search_ok_loaded)
  obtain n where n: "snd (search_shards e (shard_models st) q []) =
      shard_calls q (take n (shard_models st))"
    using search_shards_events by blast
  have "drop (length (events st)) (events (snd (ask e st q k))) =
        shard_calls q (take n (shard_models st))"
    unfolding a by (simp add: search_state [OF l] log_events_fields n)
  then have "\<forall>ev \<in> set (drop (length (events st)) (events (snd (ask e st q k)))).
            \<not> is_completion_call ev"
    by (auto simp: shard_calls_def)
  then show ?thesis using a by (simp add: no_information_def)
qed

text \<open>
  C7. When the first search of \<open>ask\<close> finds something and the compressor returns
  nothing for it, the compressed list is dropped and \<open>search\<close> runs once more with the
  same question and \<open>k\<close>; its result, the hits found at first, is what the answer is
  built from, so the answer is not the ``no relevant information'' one.
\<close>

theorem C7_overfiltering_reruns_search:
  assumes "fst (search e st q k) = Inr found" and "found \<noteq> []"
    and "use_compression st" and "compressor st = Some c" and "c found q = Inr []"
  shows "compression_step e (snd (search e st q k)) q k found =
           (found,
            snd (search e (log_events [Compress q, WarnCompressorFilteredAll]
                            (snd (search e st q k))) q k)) \<and>
         fst (search e (log_events [Compress q, WarnCompressorFilteredAll]
                          (snd (search e st q k))) q k) = Inr found \<and>
         events (snd (ask e st q k)) =
           events st @ snd (search_shards e (shard_models st) q []) @
           [Compress q, WarnCompressorFilteredAll] @
           snd (search_shards e (shard_models st) q []) @
           snd (generate_with_ollama e q (join_with [10, 10] (context_parts 1 found))) \<and>
         fst (ask e st q k) \<noteq> Inr no_information \<and>
         (\<forall>a. fst (ask e st q k) = Inr a \<longrightarrow> search_results a = found)"
proof -
  obtain st1 where s: "search e st q k = (Inr found, st1)"
    using assms(1) by (cases "search e st q k") simp
  let ?st2 = "log_events [Compress q, WarnCompressorFilteredAll] st1"
  let ?E = "snd (search_shards e (shard_models st) q [])"
  let ?G = "generate_with_ollama e q (join_with [10, 10] (context_parts 1 found))"
  have l: "index_loaded st" using assms(1) by (rule search_ok_loaded)
  have st1: "st1 = log_events ?E st" using search_state [OF l, of e q k] s by simp
  have f1: "use_compression st1" "compressor st1 = Some c"
    using assms(3,4) by (simp_all add: st1 log_events_fields)
  have f2: "index_loaded ?st2 = index_loaded st" "shard_models ?st2 = shard_models st"
    by (simp_all add: st1 log_events_fields)
  have again: "fst (search e ?st2 q k) = Inr found"
    using search_result_cong [OF f2, of e q k] assms(1) by simp
  have "index_loaded ?st2" using f2 l by simp
  then have st3: "snd (search e ?st2 q k) = log_events ?E ?st2"
    using search_state [of ?st2 e q k] f2 by simp
  obtain st3 where s3: "search e ?st2 q k = (Inr found, st3)"
    using again by (cases "search e ?st2 q k") simp
  have st3': "st3 = log_events ?E ?st2" using st3 s3 by simp
  have cs: "compression_step e st1 q k found = (found, st3)"
    using f1 assms(2,5) by (simp add: compression_step_def s3)
  obtain g evs where G: "?G = (g, evs)" by (cases ?G)
  have ask_eq: "ask e st q k =
      (case g of
         Inl err \<Rightarrow> (Inl err, log_events evs st3)
       | Inr generated \<Rightarrow>
           (Inr \<lparr>answer_text = generated,
                 sources = map (\<lambda>r. \<lparr>source_title = hit_title r, source_link = hit_source_url r,
                                      relevance_score = hit_score r\<rparr>) found,
                 search_results = found\<rparr>,
            log_events evs st3))"
    using assms(2) by (simp add: ask_def s cs G del: One_nat_def)
  have ev: "events (snd (ask e st q k)) =
      events st @ ?E @ [Compress q, WarnCompressorFilteredAll] @ ?E @ snd ?G"
    unfolding ask_eq G by (cases g) (simp_all add: st3' st1 log_events_fields)
  have ni: "fst (ask e st q k) \<noteq> Inr no_information"
    unfolding ask_eq using assms(2) by (cases g) (simp_all add: no_information_def)
  have sr: "\<forall>a. fst (ask e st q k) = Inr a \<longrightarrow> search_results a = found"
    unfolding ask_eq by (cases g) auto
  have c1: "compression_step e (snd (search e st q k)) q k found =
           (found, snd (search e (log_events [Compress q, WarnCompressorFilteredAll]
                            (snd (search e st q k))) q k))"
    by (simp add: s cs s3)
  have c2: "fst (search e (log_events [Compress q, WarnCompressorFilteredAll]
                          (snd (search e st q k))) q k) = Inr found"
    by (simp add: s s3)
  show ?thesis using c1 c2 ev ni sr by blast
qed

subsection \<open>The example environments\<close>


lemma demo_resolve:
  "resolve demo_env (py ''a'') = Some (py ''a'')"
  "resolve demo_env (py ''b'') = Some (py ''b'')"
  "resolve demo_env (py ''c'') = Some (py ''c'')"
  "resolve demo_env (py ''z'') = None"
  by (simp_all add: resolve_def get_index_path_def demo_env_def py_simps)

lemma demo_rag_fields:
  "index_paths (demo_rag (p # ps)) = p # ps"
  "shard_models (demo_rag ps) = []"
  "events (demo_rag ps) = []"
  "index_loaded (demo_rag ps) = False"
  by (simp_all add: demo_rag_def new_rag_def)

lemma no_discovery:
  "auto_discovery e False st = (Inr (), st)" "candidate_paths e False st = index_paths st"
  by (simp_all add: auto_discovery_def candidate_paths_def)

lemma demo_resolved:
  "resolved demo_env (candidate_paths demo_env False (demo_rag [py ''a'', py ''b''])) =
     [(py ''a'', py ''a''), (py ''b'', py ''b'')]"
  "resolved demo_env (candidate_paths demo_env False (demo_rag [py ''a'', py ''c''])) =
     [(py ''a'', py ''a''), (py ''c'', py ''c'')]"
  "resolved demo_env (candidate_paths demo_env False (demo_rag [py ''a'', py ''b'', py ''c''])) =
     [(py ''a'', py ''a''), (py ''b'', py ''b''), (py ''c'', py ''c'')]"
  "resolved demo_env (candidate_paths demo_env False (demo_rag [py ''z''])) = []"
  by (simp_all add: no_discovery demo_rag_fields demo_resolve)



lemma file_fields:
  "index_paths file_rag = [py ''d/x'']" "shard_models file_rag = []"
  "index_loaded file_rag = False" "events file_rag = []"
  by (simp_all add: file_rag_def new_rag_def)

lemma file_discovery:
  "auto_discovery file_env True file_rag = (Inl (py ''NotADirectoryError''), file_rag)"
  by (simp add: auto_discovery_def file_fields discover_indexes_def file_env_def demo_env_def
      py_simps log_events_def)

lemma file_resolved: "resolved file_env (candidate_paths file_env True file_rag) = []"
  unfolding candidate_paths_def file_discovery
  by (simp add: file_fields resolve_def get_index_path_def file_env_def demo_env_def py_simps)


text \<open>
  The claim as stated fails on both halves. After a \<open>build_index\<close> that succeeds no
  shard is loaded and \<open>search\<close> returns the empty list instead of failing. And when the
  listing of the base directory raises in the discovery step, no candidate path
  resolves and \<open>load_index\<close> fails with that exception, not with \<open>NoIndexFound\<close>.
\<close>

theorem C6_build_index_counterexample:
  "fst (build_index demo_env (py ''docs.jsonl'') True (demo_rag [py ''a''])) = Inr () \<and>
   shard_models (snd (build_index demo_env (py ''docs.jsonl'') True (demo_rag [py ''a'']))) = [] \<and>
   fst (search demo_env (snd (build_index demo_env (py ''docs.jsonl'') True (demo_rag [py ''a''])))
          (py ''q'') 5) = Inr [] \<and>
   resolved file_env (candidate_paths file_env True file_rag) = [] \<and>
   fst (load_index file_env True file_rag) = Inl (OSError (py ''NotADirectoryError''))"
proof -
  have b: "build_index demo_env (py ''docs.jsonl'') True (demo_rag [py ''a'']) =
        (Inr (), (demo_rag [py ''a''])\<lparr>index_loaded := True\<rparr>)"
    by (simp add: build_index_def demo_env_def)
  have l: "fst (load_index file_env True file_rag) = Inl (OSError (py ''NotADirectoryError''))"
    by (simp add: load_index_discovery_failed file_discovery)
  show ?thesis unfolding b using l by (simp add: search_def demo_rag_fields file_resolved)
qed

theorem C6_not_loaded_and_no_index_found_witness:
  "\<not> index_loaded (demo_rag [py ''z'']) \<and>
   search demo_env (demo_rag [py ''z'']) (py ''q'') 5 = (Inl NotLoaded, demo_rag [py ''z'']) \<and>
   fst (auto_discovery demo_env False (demo_rag [py ''z''])) = Inr () \<and>
   resolved demo_env (candidate_paths demo_env False (demo_rag [py ''z''])) = [] \<and>
   fst (load_index demo_env False (demo_rag [py ''z''])) = Inl NoIndexFound \<and>
   index_loaded (snd (load_index demo_env False (demo_rag [py ''z'']))) = False"
proof -
  have n: "\<not> index_loaded (demo_rag [py ''z''])" by (simp add: demo_rag_fields)
  have d: "fst (auto_discovery demo_env False (demo_rag [py ''z''])) = Inr ()"
    by (simp add: no_discovery)
  have r: "resolved demo_env (candidate_paths demo_env False (demo_rag [py ''z''])) = []"
    by (simp add: demo_resolved)
  note t = C6_not_loaded_and_no_index_found
             [where st = "demo_rag [py ''z'']" and e = demo_env and q = "py ''q''" and k = 5
                and a = False]
  have s: "search demo_env (demo_rag [py ''z'']) (py ''q'') 5 = (Inl NotLoaded, demo_rag [py ''z''])"
    using t [THEN conjunct2, THEN conjunct1] n by blast
  have l: "fst (load_index demo_env False (demo_rag [py ''z''])) = Inl NoIndexFound"
    using t [THEN conjunct2, THEN conjunct2, THEN conjunct2, THEN conjunct2] d r by blast
  have "index_loaded (snd (load_index demo_env False (demo_rag [py ''z'']))) =
        index_loaded (demo_rag [py ''z''])"
    using t [THEN conjunct2, THEN conjunct2, THEN conjunct2, THEN conjunct1] l by blast
  then show ?thesis using n s d r l by simp
qed

lemma demo_loaded_fields:
  "index_loaded demo_loaded" "shard_models demo_loaded = [(py ''a'', ModelA), (py ''c'', ModelC)]"
  "events demo_loaded = []"
  "index_loaded demo_compressing"
  "shard_models demo_compressing = [(py ''a'', ModelA), (py ''c'', ModelC)]"
  "events demo_compressing = []" "use_compression demo_compressing"
  "compressor demo_compressing = Some (\<lambda>documents query. Inr [])"
  by (simp_all add: demo_loaded_def demo_compressing_def demo_rag_fields)

lemma demo_single:
  "search_single_index demo_env (py ''a'') ModelA (py ''q'') 2 =
     (Inr [\<lparr>hit_chunk_id = py ''0'', hit_text = py ''alpha'', hit_score = Num (1 / 2),
            hit_title = [], hit_source_url = [], hit_metadata = [], hit_index_path = py ''a''\<rparr>,
           \<lparr>hit_chunk_id = py ''1'', hit_text = py ''beta'', hit_score = Num 1, hit_title = [],
            hit_source_url = [], hit_metadata = [], hit_index_path = py ''a''\<rparr>],
      [ModelSearch (py ''a'') (py ''q'') 2])"
  "search_single_index demo_env (py ''c'') ModelC (py ''q'') 2 =
     (Inr [\<lparr>hit_chunk_id = py ''0'', hit_text = py ''gamma'', hit_score = Num (9 / 10),
            hit_title = [], hit_source_url = [], hit_metadata = [], hit_index_path = py ''c''\<rparr>],
      [ModelSearch (py ''c'') (py ''q'') 2])"
  "search_single_index demo_env (py ''a'') ModelA (py ''nothing'') 2 =
     (Inr [], [ModelSearch (py ''a'') (py ''nothing'') 2])"
  "search_single_index demo_env (py ''c'') ModelC (py ''nothing'') 2 =
     (Inr [], [ModelSearch (py ''c'') (py ''nothing'') 2])"
  by (simp_all add: search_single_index_def demo_env_def py_simps format_result_def scored_def
      meta_get_def get_or_def str_nat_digit str_int_def Let_def)



lemma demo_all:
  "concat (map (shard_hits demo_env (py ''q'')) [(py ''a'', ModelA), (py ''c'', ModelC)]) =
     demo_all_hits"
  by (simp add: shard_hits_def demo_single demo_all_hits_def)

lemma demo_sorted:
  "slice_to 2 (sort_reverse demo_env demo_all_hits) = demo_hits" "demo_all_hits \<noteq> []"
  "NaN \<notin> set (map hit_score demo_all_hits)"
  by (simp_all add: slice_to_def sort_reverse_def demo_hits_def demo_all_hits_def)



lemma demo_search_compressing:
  "fst (search demo_env demo_compressing (py ''q'') 2) = Inr demo_hits"
  "snd (search_shards demo_env (shard_models demo_compressing) (py ''q'') []) =
     [ModelSearch (py ''a'') (py ''q'') 2, ModelSearch (py ''c'') (py ''q'') 2]"
proof -
  have h: "\<forall>shard \<in> set (shard_models demo_compressing).
       \<exists>hs. fst (search_single_index demo_env (fst shard) (snd shard) (py ''q'') 2) = Inr hs"
    by (simp add: demo_loaded_fields demo_single)
  have "search_shards demo_env (shard_models demo_compressing) (py ''q'') [] =
        (Inr (concat (map (shard_hits demo_env (py ''q'')) (shard_models demo_compressing))),
         shard_calls (py ''q'') (shard_models demo_compressing))"
    using search_shards_ok [OF h, of "[]"] by simp
  then have s: "search_shards demo_env (shard_models demo_compressing) (py ''q'') [] =
        (Inr demo_all_hits,
         [ModelSearch (py ''a'') (py ''q'') 2, ModelSearch (py ''c'') (py ''q'') 2])"
    unfolding demo_loaded_fields(5) demo_all by (simp add: shard_calls_def)
  show "snd (search_shards demo_env (shard_models demo_compressing) (py ''q'') []) =
     [ModelSearch (py ''a'') (py ''q'') 2, ModelSearch (py ''c'') (py ''q'') 2]"
    unfolding s by simp
  show "fst (search demo_env demo_compressing (py ''q'') 2) = Inr demo_hits"
    unfolding search_def s by (simp add: demo_loaded_fields(4) demo_sorted)
qed

theorem C7_overfiltering_reruns_search_witness:
  "fst (search demo_env demo_compressing (py ''q'') 2) = Inr demo_hits \<and> demo_hits \<noteq> [] \<and>
   use_compression demo_compressing \<and>
   compressor demo_compressing = Some (\<lambda>documents query. Inr []) \<and>
   fst (ask demo_env demo_compressing (py ''q'') 2) \<noteq> Inr no_information \<and>
   events (snd (ask demo_env demo_compressing (py ''q'') 2)) =
     [ModelSearch (py ''a'') (py ''q'') 2, ModelSearch (py ''c'') (py ''q'') 2,
      Compress (py ''q''), WarnCompressorFilteredAll,
      ModelSearch (py ''a'') (py ''q'') 2, ModelSearch (py ''c'') (py ''q'') 2,
      OllamaProbe,
      OllamaGenerate (full_prompt (py ''q'') (join_with [10, 10] (context_parts 1 demo_hits)))]"
proof -
  have h: "fst (search demo_env demo_compressing (py ''q'') 2) = Inr demo_hits"
    "demo_hits \<noteq> []" "use_compression demo_compressing"
    "compressor demo_compressing = Some (\<lambda>documents query. Inr [])"
    "(\<lambda>documents query. Inr []) demo_hits (py ''q'') = (Inr [] :: exn + hit list)"
    by (simp_all add: demo_search_compressing demo_loaded_fields demo_hits_def)
  have g: "snd (generate_with_ollama demo_env (py ''q'')
                  (join_with [10, 10] (context_parts 1 demo_hits))) =
           [OllamaProbe,
            OllamaGenerate (full_prompt (py ''q'') (join_with [10, 10] (context_parts 1 demo_hits)))]"
    by (simp add: generate_with_ollama_def demo_env_def del: One_nat_def)
  note t = C7_overfiltering_reruns_search [OF h]
  have "events (snd (ask demo_env demo_compressing (py ''q'') 2)) =
           events demo_compressing @
           snd (search_shards demo_env (shard_models demo_compressing) (py ''q'') []) @
           [Compress (py ''q''), WarnCompressorFilteredAll] @
           snd (search_shards demo_env (shard_models demo_compressing) (py ''q'') []) @
           snd (generate_with_ollama demo_env (py ''q'')
                  (join_with [10, 10] (context_parts 1 demo_hits)))"
    using t by blast
  then have "events (snd (ask demo_env demo_compressing (py ''q'') 2)) =
     [ModelSearch (py ''a'') (py ''q'') 2, ModelSearch (py ''c'') (py ''q'') 2,
      Compress (py ''q''), WarnCompressorFilteredAll,
      ModelSearch (py ''a'') (py ''q'') 2, ModelSearch (py ''c'') (py ''q'') 2,
      OllamaProbe,
      OllamaGenerate (full_prompt (py ''q'') (join_with [10, 10] (context_parts 1 demo_hits)))]"
    unfolding demo_search_compressing(2) g demo_loaded_fields(6) by simp
  moreover have "fst (ask demo_env demo_compressing (py ''q'') 2) \<noteq> Inr no_information"
    using t by blast
  ultimately show ?thesis using h(1-4) by simp
qed

lemma demo_search_nothing:
  "search demo_env demo_loaded (py ''nothing'') 5 =
     (Inr [], log_events [ModelSearch (py ''a'') (py ''nothing'') 2,
                          ModelSearch (py ''c'') (py ''nothing'') 2] demo_loaded)"
  by (simp add: search_def demo_loaded_fields(1) demo_loaded_fields(2) demo_single)

theorem C8_empty_search_no_completion_witness:
  "fst (search demo_env demo_loaded (py ''nothing'') 5) = Inr [] \<and>
   fst (ask demo_env demo_loaded (py ''nothing'') 5) = Inr no_information \<and>
   events (snd (ask demo_env demo_loaded (py ''nothing'') 5)) =
     [ModelSearch (py ''a'') (py ''nothing'') 2, ModelSearch (py ''c'') (py ''nothing'') 2]"
proof -
  have h: "fst (search demo_env demo_loaded (py ''nothing'') 5) = Inr []"
    by (simp add: demo_search_nothing)
  have "ask demo_env demo_loaded (py ''nothing'') 5 =
          (Inr no_information, snd (search demo_env demo_loaded (py ''nothing'') 5))"
    using C8_empty_search_no_completion [OF h] by blast
  then show ?thesis using h
    by (simp add: demo_search_nothing log_events_fields demo_loaded_fields)
qed

end
